theory Spec2Isabelle
  imports Main "HOL-Library.Word" "HOL-Library.Log_Nat"
begin

section \<open>Strings of the host language\<close>

text \<open>
  A string of the program is a sequence of UTF-16 code units.  The characters that the
  source writes outside ASCII are given by their code units.
\<close>

type_synonym jsstring = "16 word list"

definition js :: "string \<Rightarrow> jsstring" where
  "js s = map (\<lambda>c. of_nat (of_char c)) s"

definition chr_minus :: "16 word" where "chr_minus = 0x2D"
definition chr_slash :: "16 word" where "chr_slash = 0x2F"
definition chr_space :: "16 word" where "chr_space = 0x20"
definition chr_colon :: "16 word" where "chr_colon = 0x3A"
definition chr_zero :: "16 word" where "chr_zero = 0x30"

text \<open>U+5E74, U+6708, U+65E5: the year, month and day signs; U+30FC: the long dash;
  U+FF08 and U+FF09: the full-width parentheses.\<close>

definition chr_nen :: "16 word" where "chr_nen = 0x5E74"
definition chr_gatsu :: "16 word" where "chr_gatsu = 0x6708"
definition chr_nichi :: "16 word" where "chr_nichi = 0x65E5"
definition chr_chouon :: "16 word" where "chr_chouon = 0x30FC"
definition chr_lparen :: "16 word" where "chr_lparen = 0xFF08"
definition chr_rparen :: "16 word" where "chr_rparen = 0xFF09"

definition is_digit :: "16 word \<Rightarrow> bool" where
  "is_digit c = (0x30 \<le> c \<and> c \<le> 0x39)"

definition digit_char :: "nat \<Rightarrow> 16 word" where
  "digit_char d = of_nat (48 + d mod 10)"

text \<open>\<^verbatim>\<open>String(n)\<close> for an integral number: the decimal digits, with a minus sign
  when negative.\<close>

fun digits :: "nat \<Rightarrow> jsstring" where
  "digits n = (if n < 10 then [digit_char n] else digits (n div 10) @ [digit_char n])"

declare digits.simps [simp del]

definition string_of_int :: "int \<Rightarrow> jsstring" where
  "string_of_int i = (if i < 0 then chr_minus # digits (nat (- i)) else digits (nat i))"

text \<open>A number that may be \<^verbatim>\<open>NaN\<close> is an \<open>int option\<close>, \<open>None\<close> being \<^verbatim>\<open>NaN\<close>.\<close>

definition string_of_number :: "int option \<Rightarrow> jsstring" where
  "string_of_number x = (case x of None \<Rightarrow> js ''NaN'' | Some i \<Rightarrow> string_of_int i)"

text \<open>\<^verbatim>\<open>String.prototype.padStart\<close> with a one-character filler, which is how dayjs pads
  a field (\<^verbatim>\<open>Utils.s\<close>): a string already long enough is returned as it is.\<close>

definition padStart :: "nat \<Rightarrow> 16 word \<Rightarrow> jsstring \<Rightarrow> jsstring" where
  "padStart n c s = replicate (n - length s) c @ s"

text \<open>\<^verbatim>\<open>s.split(sep)\<close> for a one-character separator: the pieces between the
  separators, at least one piece.\<close>

fun split_on :: "16 word \<Rightarrow> jsstring \<Rightarrow> jsstring list" where
  "split_on sep [] = [[]]"
| "split_on sep (c # cs) =
     (if c = sep then [] # split_on sep cs
      else (case split_on sep cs of [] \<Rightarrow> [[c]] | p # ps \<Rightarrow> (c # p) # ps))"

text \<open>Reading an array at an index: \<open>None\<close> is \<^verbatim>\<open>undefined\<close>.\<close>

definition nth_opt :: "'a list \<Rightarrow> nat \<Rightarrow> 'a option" where
  "nth_opt xs i = (if i < length xs then Some (xs ! i) else None)"

section \<open>Numbers of the host language\<close>

text \<open>
  A number of the program is a double.  The time values of the calendar are integers
  below \<open>2 ^ 53\<close>, where the doubles are exact, and an integer stands for each.  Where
  dayjs subtracts or divides numbers (in \<^verbatim>\<open>diff\<close> and in \<^verbatim>\<open>tz\<close>) the result is
  rounded as the language standard says: to the nearest double, a tie to the one with an
  even significand.  A finite double is given by the rational it denotes.  The bounds of
  the exponent are not modelled: the numbers met here are far from them.
\<close>

definition pow2 :: "int \<Rightarrow> rat" where
  "pow2 k = (if 0 \<le> k then 2 ^ nat k else 1 / 2 ^ nat (- k))"

text \<open>The exponent of a positive number \<open>a\<close>: the \<open>e\<close> with \<open>2 ^ e \<le> a < 2 ^ (e + 1)\<close>.\<close>

definition ilog2 :: "rat \<Rightarrow> int" where
  "ilog2 a = (if 1 \<le> a then bitlen \<lfloor>a\<rfloor> - 1 else - bitlen (\<lceil>1 / a\<rceil> - 1))"

definition round_half_even :: "rat \<Rightarrow> int" where
  "round_half_even x =
     (let f = \<lfloor>x\<rfloor>; r = x - of_int f
      in if r < 1 / 2 then f else if 1 / 2 < r then f + 1 else if even f then f else f + 1)"

text \<open>The double nearest to a number: a significand of 53 bits.\<close>

definition RN :: "rat \<Rightarrow> rat" where
  "RN q = (if q = 0 then 0
           else (let u = pow2 (ilog2 \<bar>q\<bar> - 52) in of_int (round_half_even (q / u)) * u))"

definition fsub :: "rat \<Rightarrow> rat \<Rightarrow> rat" where
  "fsub x y = RN (x - y)"

definition fdiv :: "rat \<Rightarrow> rat \<Rightarrow> rat" where
  "fdiv x y = RN (x / y)"

text \<open>\<^verbatim>\<open>Math.round\<close>, and \<^verbatim>\<open>absFloor\<close> of dayjs, which rounds towards zero.\<close>

definition Math_round :: "rat \<Rightarrow> int" where
  "Math_round x = \<lfloor>x + 1 / 2\<rfloor>"

definition absFloor :: "rat \<Rightarrow> int" where
  "absFloor n = (if n < 0 then \<lceil>n\<rceil> else \<lfloor>n\<rfloor>)"

section \<open>Time values and the calendar of ECMAScript\<close>

text \<open>
  A time value is a number of milliseconds since the epoch, or \<^verbatim>\<open>NaN\<close>: an
  \<open>int option\<close>.  A \<^verbatim>\<open>Date\<close> object is its time value; the one with \<^verbatim>\<open>NaN\<close>
  is the Invalid Date.  The functions below are those of the language standard
  (Day, TimeWithinDay, DayFromYear, YearFromTime, MonthFromTime, DateFromTime, WeekDay,
  MakeTime, MakeDay, MakeDate, TimeClip), on integers.
\<close>

type_synonym timevalue = "int option"

definition msPerDay :: int where "msPerDay = 86400000"
definition msPerHour :: int where "msPerHour = 3600000"
definition msPerMinute :: int where "msPerMinute = 60000"
definition msPerSecond :: int where "msPerSecond = 1000"
definition maxTime :: int where "maxTime = 8640000000000000"

definition TimeClip :: "int \<Rightarrow> timevalue" where
  "TimeClip t = (if \<bar>t\<bar> > maxTime then None else Some t)"

definition Day :: "int \<Rightarrow> int" where "Day t = t div msPerDay"
definition TimeWithinDay :: "int \<Rightarrow> int" where "TimeWithinDay t = t mod msPerDay"

definition DayFromYear :: "int \<Rightarrow> int" where
  "DayFromYear y =
     365 * (y - 1970) + (y - 1969) div 4 - (y - 1901) div 100 + (y - 1601) div 400"

definition isLeap :: "int \<Rightarrow> bool" where
  "isLeap y = (y mod 4 = 0 \<and> (y mod 100 \<noteq> 0 \<or> y mod 400 = 0))"

definition DaysInYear :: "int \<Rightarrow> int" where
  "DaysInYear y = (if isLeap y then 366 else 365)"

text \<open>The year of a day number: the largest \<open>y\<close> with \<open>DayFromYear y \<le> d\<close>, found from
  the estimate by the mean length of a year, which is off by one at most.\<close>

definition YearFromDay :: "int \<Rightarrow> int" where
  "YearFromDay d =
     (let y = 1970 + (400 * d) div 146097
      in if DayFromYear (y + 1) \<le> d then y + 1
         else if DayFromYear y \<le> d then y else y - 1)"

definition YearFromTime :: "int \<Rightarrow> int" where
  "YearFromTime t = YearFromDay (Day t)"

definition InLeapYear :: "int \<Rightarrow> bool" where
  "InLeapYear t = isLeap (YearFromTime t)"

definition DayWithinYear :: "int \<Rightarrow> int" where
  "DayWithinYear t = Day t - DayFromYear (YearFromTime t)"

text \<open>The day within the year on which month \<open>m\<close> (0 to 11) starts; 12 gives the length
  of the year.\<close>

definition monthStart :: "bool \<Rightarrow> int \<Rightarrow> int" where
  "monthStart leap m =
     (if m \<le> 0 then 0 else if m = 1 then 31
      else (if leap then 1 else 0) +
        (if m = 2 then 59 else if m = 3 then 90 else if m = 4 then 120
         else if m = 5 then 151 else if m = 6 then 181 else if m = 7 then 212
         else if m = 8 then 243 else if m = 9 then 273 else if m = 10 then 304
         else if m = 11 then 334 else 365))"

definition monthOfDay :: "bool \<Rightarrow> int \<Rightarrow> int" where
  "monthOfDay leap d =
     (if d < monthStart leap 1 then 0 else if d < monthStart leap 2 then 1
      else if d < monthStart leap 3 then 2 else if d < monthStart leap 4 then 3
      else if d < monthStart leap 5 then 4 else if d < monthStart leap 6 then 5
      else if d < monthStart leap 7 then 6 else if d < monthStart leap 8 then 7
      else if d < monthStart leap 9 then 8 else if d < monthStart leap 10 then 9
      else if d < monthStart leap 11 then 10 else 11)"

definition MonthFromTime :: "int \<Rightarrow> int" where
  "MonthFromTime t = monthOfDay (InLeapYear t) (DayWithinYear t)"

definition DateFromTime :: "int \<Rightarrow> int" where
  "DateFromTime t = DayWithinYear t - monthStart (InLeapYear t) (MonthFromTime t) + 1"

definition WeekDay :: "int \<Rightarrow> int" where
  "WeekDay t = (Day t + 4) mod 7"

definition HourFromTime :: "int \<Rightarrow> int" where
  "HourFromTime t = (t div msPerHour) mod 24"
definition MinFromTime :: "int \<Rightarrow> int" where
  "MinFromTime t = (t div msPerMinute) mod 60"
definition SecFromTime :: "int \<Rightarrow> int" where
  "SecFromTime t = (t div msPerSecond) mod 60"
definition msFromTime :: "int \<Rightarrow> int" where
  "msFromTime t = t mod msPerSecond"

definition MakeTime :: "int \<Rightarrow> int \<Rightarrow> int \<Rightarrow> int \<Rightarrow> int" where
  "MakeTime h m s ms = h * msPerHour + m * msPerMinute + s * msPerSecond + ms"

definition MakeDay :: "int \<Rightarrow> int \<Rightarrow> int \<Rightarrow> int" where
  "MakeDay year month dt =
     (let ym = year + month div 12; mn = month mod 12
      in DayFromYear ym + monthStart (isLeap ym) mn + dt - 1)"

definition MakeDate :: "int \<Rightarrow> int \<Rightarrow> int" where
  "MakeDate day time = day * msPerDay + time"

section \<open>The host: clock, zone and the parsers of strings\<close>

text \<open>
  What the class reads from its environment is a parameter of the model:
  \<^item> \<open>Date_parse\<close>: the engine's reading of a string as a time value
    (\<^verbatim>\<open>Date.parse\<close>, whose fallback formats the language standard leaves to the engine);
  \<^item> \<open>dayjs_parse\<close>: the reading of a string by \<^verbatim>\<open>dayjs(string)\<close>;
  \<^item> \<open>utcOffset\<close>: the offset of the host's zone, in minutes east of UTC, taken as fixed;
  \<^item> \<open>clock\<close>: the time value that \<^verbatim>\<open>new Date()\<close> and \<^verbatim>\<open>dayjs()\<close> read;
  \<^item> \<open>getTimezoneOffset\<close>: what \<^verbatim>\<open>Date.prototype.getTimezoneOffset\<close> returns for
    the \<^verbatim>\<open>Date\<close> of a time value, in minutes west of UTC, taken as a whole
    number.  The fields of a
    \<^verbatim>\<open>Date\<close> are read and set at \<open>utcOffset\<close>; the two operations of dayjs that ask
    a \<^verbatim>\<open>Date\<close> for its offset, \<^verbatim>\<open>diff\<close> and \<^verbatim>\<open>tz\<close>, get it from here, each
    \<^verbatim>\<open>Date\<close> its own.  On a host that keeps one offset it is \<open>- utcOffset\<close> at every
    time value;
  \<^item> \<open>tz_target\<close>: for a time value \<open>t\<close>, the \<^verbatim>\<open>Date\<close> that \<^verbatim>\<open>tz()\<close> builds
    on its way,
    \<^verbatim>\<open>new Date(new Date(t).toLocaleString("en-US", {timeZone: "Asia/Tokyo"}))\<close>:
    the engine's rendering of the wall clock of Tokyo at \<open>t\<close>, to the second, read back
    by the engine as a local time of the host.
  The zone set as default for \<^verbatim>\<open>tz()\<close> is Asia/Tokyo, whose offset from UTC has been
  nine hours since 1951: \<open>tokyoOffset\<close>.
\<close>

record host =
  Date_parse :: "jsstring \<Rightarrow> timevalue"
  dayjs_parse :: "jsstring \<Rightarrow> timevalue"
  utcOffset :: int
  clock :: int
  getTimezoneOffset :: "int \<Rightarrow> int"
  tz_target :: "int \<Rightarrow> timevalue"

definition tokyoOffset :: int where "tokyoOffset = 540"

definition LocalTime :: "int \<Rightarrow> int \<Rightarrow> int" where
  "LocalTime off t = t + off * msPerMinute"

definition UTC :: "int \<Rightarrow> int \<Rightarrow> int" where
  "UTC off t = t - off * msPerMinute"

definition clip :: "timevalue \<Rightarrow> timevalue" where
  "clip d = (case d of None \<Rightarrow> None | Some t \<Rightarrow> TimeClip t)"

subsection \<open>The Date object\<close>

text \<open>\<^verbatim>\<open>new Date(string)\<close>, \<^verbatim>\<open>new Date()\<close> and \<^verbatim>\<open>new Date(y, m, d)\<close>; the last
  reads a year from 0 to 99 as 1900 + y.\<close>

definition new_Date_string :: "host \<Rightarrow> jsstring \<Rightarrow> timevalue" where
  "new_Date_string h v = clip (Date_parse h v)"

definition new_Date_now :: "host \<Rightarrow> timevalue" where
  "new_Date_now h = Some (clock h)"

definition new_Date_ymd :: "int \<Rightarrow> int option \<Rightarrow> int \<Rightarrow> int \<Rightarrow> timevalue" where
  "new_Date_ymd off y m d =
     (case y of None \<Rightarrow> None
      | Some y0 \<Rightarrow>
          (let yr = (if 0 \<le> y0 \<and> y0 \<le> 99 then 1900 + y0 else y0)
           in TimeClip (UTC off (MakeDate (MakeDay yr m d) (MakeTime 0 0 0 0)))))"

definition getFullYear :: "int \<Rightarrow> timevalue \<Rightarrow> int option" where
  "getFullYear off d = map_option (\<lambda>t. YearFromTime (LocalTime off t)) d"

definition getMonth :: "int \<Rightarrow> timevalue \<Rightarrow> int option" where
  "getMonth off d = map_option (\<lambda>t. MonthFromTime (LocalTime off t)) d"

definition getDate :: "int \<Rightarrow> timevalue \<Rightarrow> int option" where
  "getDate off d = map_option (\<lambda>t. DateFromTime (LocalTime off t)) d"

definition getDay :: "int \<Rightarrow> timevalue \<Rightarrow> int option" where
  "getDay off d = map_option (\<lambda>t. WeekDay (LocalTime off t)) d"

definition setHours :: "int \<Rightarrow> int \<Rightarrow> timevalue \<Rightarrow> timevalue" where
  "setHours off hour d =
     (case d of None \<Rightarrow> None
      | Some tv \<Rightarrow>
          (let t = LocalTime off tv
           in TimeClip (UTC off (MakeDate (Day t)
                (MakeTime hour (MinFromTime t) (SecFromTime t) (msFromTime t))))))"

definition setMinutes :: "int \<Rightarrow> int \<Rightarrow> timevalue \<Rightarrow> timevalue" where
  "setMinutes off m d =
     (case d of None \<Rightarrow> None
      | Some tv \<Rightarrow>
          (let t = LocalTime off tv
           in TimeClip (UTC off (MakeDate (Day t)
                (MakeTime (HourFromTime t) m (SecFromTime t) (msFromTime t))))))"

definition setSeconds :: "int \<Rightarrow> int \<Rightarrow> timevalue \<Rightarrow> timevalue" where
  "setSeconds off s d =
     (case d of None \<Rightarrow> None
      | Some tv \<Rightarrow>
          (let t = LocalTime off tv
           in TimeClip (UTC off (MakeDate (Day t)
                (MakeTime (HourFromTime t) (MinFromTime t) s (msFromTime t))))))"

definition setMilliseconds :: "int \<Rightarrow> int \<Rightarrow> timevalue \<Rightarrow> timevalue" where
  "setMilliseconds off ms d =
     (case d of None \<Rightarrow> None
      | Some tv \<Rightarrow>
          (let t = LocalTime off tv
           in TimeClip (UTC off (MakeDate (Day t)
                (MakeTime (HourFromTime t) (MinFromTime t) (SecFromTime t) ms)))))"

definition setDate :: "int \<Rightarrow> int \<Rightarrow> timevalue \<Rightarrow> timevalue" where
  "setDate off dt d =
     (case d of None \<Rightarrow> None
      | Some tv \<Rightarrow>
          (let t = LocalTime off tv
           in TimeClip (UTC off (MakeDate
                (MakeDay (YearFromTime t) (MonthFromTime t) dt) (TimeWithinDay t)))))"

text \<open>\<^verbatim>\<open>setFullYear\<close> starts from +0 when the time value is \<^verbatim>\<open>NaN\<close>.\<close>

definition setFullYear :: "int \<Rightarrow> int \<Rightarrow> timevalue \<Rightarrow> timevalue" where
  "setFullYear off y d =
     (let t = (case d of None \<Rightarrow> 0 | Some tv \<Rightarrow> LocalTime off tv)
      in TimeClip (UTC off (MakeDate
           (MakeDay y (MonthFromTime t) (DateFromTime t)) (TimeWithinDay t))))"

text \<open>
  \<^verbatim>\<open>toLocaleString("ja-JP")\<close>: the pattern \<^verbatim>\<open>y/M/d H:mm:ss\<close> of the locale in the
  host's zone, and \<^verbatim>\<open>Invalid Date\<close> for the Invalid Date.
\<close>

definition pad2 :: "int \<Rightarrow> jsstring" where
  "pad2 i = padStart 2 chr_zero (string_of_int i)"

definition toLocaleString_ja :: "int \<Rightarrow> timevalue \<Rightarrow> jsstring" where
  "toLocaleString_ja off d =
     (case d of None \<Rightarrow> js ''Invalid Date''
      | Some tv \<Rightarrow>
          (let t = LocalTime off tv
           in string_of_int (YearFromTime t) @ [chr_slash]
              @ string_of_int (MonthFromTime t + 1) @ [chr_slash]
              @ string_of_int (DateFromTime t) @ [chr_space]
              @ string_of_int (HourFromTime t) @ [chr_colon]
              @ pad2 (MinFromTime t) @ [chr_colon] @ pad2 (SecFromTime t)))"

subsection \<open>The dayjs object\<close>

text \<open>
  A dayjs object holds a \<^verbatim>\<open>Date\<close> and the offset in which the fields of that
  \<^verbatim>\<open>Date\<close> are read and set: the host's for \<^verbatim>\<open>dayjs(x)\<close>, zero for an object in
  UTC mode.  An object made by \<^verbatim>\<open>tz()\<close> holds besides the offset that \<^verbatim>\<open>tz()\<close>
  found for it (\<^verbatim>\<open>$offset\<close>).  Its \<^verbatim>\<open>Date\<close> is then not the instant it stands for:
  it is the \<^verbatim>\<open>Date\<close> whose fields in the host's zone are the wall clock of the zone
  asked for, and \<^verbatim>\<open>toDate\<close> gives the instant back.  The operations are those the
  class calls, each by what it does to the \<^verbatim>\<open>Date\<close> it holds.
\<close>

record dayjs =
  dt :: timevalue
  zoff :: int

record dayjs_tz = dayjs +
  fixed_offset :: "int option"

definition dayjs_of_date :: "host \<Rightarrow> timevalue \<Rightarrow> dayjs" where
  "dayjs_of_date h d = \<lparr>dt = d, zoff = utcOffset h\<rparr>"

definition dayjs_now :: "host \<Rightarrow> dayjs" where
  "dayjs_now h = \<lparr>dt = Some (clock h), zoff = utcOffset h\<rparr>"

definition dayjs_of_string :: "host \<Rightarrow> jsstring \<Rightarrow> dayjs" where
  "dayjs_of_string h s = \<lparr>dt = clip (dayjs_parse h s), zoff = utcOffset h\<rparr>"

text \<open>\<^verbatim>\<open>utcOffset()\<close> of an object made by \<^verbatim>\<open>dayjs(x)\<close> whose \<^verbatim>\<open>Date\<close> has the
  time value \<open>t\<close>: the offset of that \<^verbatim>\<open>Date\<close>, to the quarter of an hour.\<close>

definition dayjs_utcOffset :: "host \<Rightarrow> int \<Rightarrow> int" where
  "dayjs_utcOffset h t = - Math_round (fdiv (of_int (getTimezoneOffset h t)) 15) * 15"

text \<open>
  \<^verbatim>\<open>tz()\<close> with the default zone, on an object made by \<^verbatim>\<open>dayjs(x)\<close>.  In the words
  of dayjs: \<open>date\<close> is the instant of the object, \<open>target\<close> the \<^verbatim>\<open>Date\<close> read back
  from the wall clock of Tokyo, \<open>diff\<close> the minutes between the two, and the offset kept
  that of the host at the instant less \<open>diff\<close>.  An offset of zero, or one that is not a
  number, turns the object to UTC mode.  Otherwise the object made is
  \<^verbatim>\<open>dayjs(target)\<close> with the milliseconds of the instant, and keeps the offset;
  \<^verbatim>\<open>utcOffset(offset, true)\<close> reads an offset of at most 16 as a number of hours.
  (Older releases of dayjs take for the offset of the host the one at the time the
  plugin was loaded, and in \<^verbatim>\<open>toDate\<close> the one of the clock: on a host that keeps one
  offset these are the same.)
\<close>

definition tz :: "host \<Rightarrow> dayjs \<Rightarrow> dayjs_tz" where
  "tz h x =
     (case dt x of
        None \<Rightarrow> \<lparr>dt = None, zoff = 0, fixed_offset = None\<rparr>
      | Some date \<Rightarrow>
          (case tz_target h date of
             None \<Rightarrow> \<lparr>dt = Some date, zoff = 0, fixed_offset = None\<rparr>
           | Some target \<Rightarrow>
               (let diff = Math_round (fdiv (fdiv (fsub (of_int date) (of_int target)) 1000) 60);
                    offset = dayjs_utcOffset h date - diff
                in if offset = 0 then \<lparr>dt = Some date, zoff = 0, fixed_offset = None\<rparr>
                   else \<lparr>dt = setMilliseconds (utcOffset h)
                                (msFromTime (LocalTime (zoff x) date)) (Some target),
                         zoff = utcOffset h,
                         fixed_offset = Some (if \<bar>offset\<bar> \<le> 16 then offset * 60 else offset)\<rparr>)))"

text \<open>\<^verbatim>\<open>toDate()\<close>: the \<^verbatim>\<open>Date\<close> of the value of the object, which is the time value
  held less the offset kept and the offset of the \<^verbatim>\<open>Date\<close> held.\<close>

definition toDate :: "host \<Rightarrow> dayjs_tz \<Rightarrow> timevalue" where
  "toDate h x =
     (case dt x of None \<Rightarrow> None
      | Some d \<Rightarrow>
          (case fixed_offset x of None \<Rightarrow> TimeClip d
           | Some offset \<Rightarrow>
               (let addedOffset = offset + getTimezoneOffset h d
                in TimeClip (d - addedOffset * msPerMinute))))"

text \<open>The format strings of the source, split into the tokens dayjs reads in them.\<close>

datatype token = YYYY | MM | DD | HH | Mm | Ss | Lit jsstring

definition render :: "int \<Rightarrow> token \<Rightarrow> jsstring" where
  "render t k =
     (case k of
        YYYY \<Rightarrow> padStart 4 chr_zero (string_of_int (YearFromTime t))
      | MM \<Rightarrow> pad2 (MonthFromTime t + 1)
      | DD \<Rightarrow> pad2 (DateFromTime t)
      | HH \<Rightarrow> pad2 (HourFromTime t)
      | Mm \<Rightarrow> pad2 (MinFromTime t)
      | Ss \<Rightarrow> pad2 (SecFromTime t)
      | Lit s \<Rightarrow> s)"

definition format :: "'a dayjs_scheme \<Rightarrow> token list \<Rightarrow> jsstring" where
  "format x ks =
     (case dt x of None \<Rightarrow> js ''Invalid Date''
      | Some tv \<Rightarrow> concat (map (render (LocalTime (zoff x) tv)) ks))"

definition fmt_date :: "token list" where
  "fmt_date = [YYYY, Lit (js ''-''), MM, Lit (js ''-''), DD]"

definition fmt_date_jp :: "token list" where
  "fmt_date_jp = [YYYY, Lit [chr_nen], MM, Lit [chr_gatsu], DD, Lit [chr_nichi]]"

definition fmt_date_hm :: "token list" where
  "fmt_date_hm = fmt_date @ [Lit (js '' ''), HH, Lit (js '':''), Mm]"

definition fmt_date_hms :: "token list" where
  "fmt_date_hms = fmt_date_hm @ [Lit (js '':''), Ss]"

definition fmt_name :: "token list" where
  "fmt_name = [YYYY, MM, DD, Lit (js ''_''), HH, Mm, Ss]"

text \<open>\<^verbatim>\<open>add(n, "d")\<close> sets the day of the month to its value plus \<open>n\<close>;
  \<^verbatim>\<open>subtract\<close> adds the negated number; \<^verbatim>\<open>add(n, "m")\<close> adds to the time value.\<close>

definition add_days :: "int \<Rightarrow> 'a dayjs_scheme \<Rightarrow> 'a dayjs_scheme" where
  "add_days n x =
     (case getDate (zoff x) (dt x) of None \<Rightarrow> x\<lparr>dt := None\<rparr>
      | Some dd \<Rightarrow> x\<lparr>dt := setDate (zoff x) (dd + n) (dt x)\<rparr>)"

definition subtract_days :: "int \<Rightarrow> 'a dayjs_scheme \<Rightarrow> 'a dayjs_scheme" where
  "subtract_days n x = add_days (n * (- 1)) x"

definition add_minutes :: "int \<Rightarrow> dayjs \<Rightarrow> dayjs" where
  "add_minutes n x =
     x\<lparr>dt := (case dt x of None \<Rightarrow> None | Some t \<Rightarrow> TimeClip (t + n * msPerMinute))\<rparr>"

text \<open>
  \<^verbatim>\<open>add(n, "y")\<close> sets the year on the first of the month, then the day of the month
  to the old one, at most the length of the new month.
\<close>

definition daysInMonth :: "int \<Rightarrow> int" where
  "daysInMonth t =
     monthStart (InLeapYear t) (MonthFromTime t + 1) - monthStart (InLeapYear t) (MonthFromTime t)"

definition add_years :: "int \<Rightarrow> dayjs \<Rightarrow> dayjs" where
  "add_years n x =
     (case dt x of None \<Rightarrow> x
      | Some tv \<Rightarrow>
          (let off = zoff x;
               y = YearFromTime (LocalTime off tv);
               dd = DateFromTime (LocalTime off tv);
               d2 = setFullYear off (y + n) (setDate off 1 (dt x))
           in (case d2 of None \<Rightarrow> x\<lparr>dt := None\<rparr>
               | Some t2 \<Rightarrow>
                   x\<lparr>dt := setDate off (min dd (daysInMonth (LocalTime off t2))) d2\<rparr>)))"

text \<open>\<^verbatim>\<open>startOf("year")\<close> is \<^verbatim>\<open>new Date(y, 0, 1)\<close> for the year \<open>y\<close> of the object.\<close>

definition startOf_year :: "dayjs \<Rightarrow> dayjs" where
  "startOf_year x = x\<lparr>dt := new_Date_ymd (zoff x) (getFullYear (zoff x) (dt x)) 0 1\<rparr>"

definition set_hour :: "int \<Rightarrow> dayjs \<Rightarrow> dayjs" where
  "set_hour i x = x\<lparr>dt := setHours (zoff x) i (dt x)\<rparr>"

definition set_minute :: "int \<Rightarrow> dayjs \<Rightarrow> dayjs" where
  "set_minute i x = x\<lparr>dt := setMinutes (zoff x) i (dt x)\<rparr>"

definition set_second :: "int \<Rightarrow> dayjs \<Rightarrow> dayjs" where
  "set_second i x = x\<lparr>dt := setSeconds (zoff x) i (dt x)\<rparr>"

text \<open>The comparisons read both time values; a comparison with \<^verbatim>\<open>NaN\<close> is false.\<close>

definition dayjs_isBefore :: "dayjs \<Rightarrow> dayjs \<Rightarrow> bool" where
  "dayjs_isBefore x that =
     (case (dt x, dt that) of (Some a, Some b) \<Rightarrow> a < b | _ \<Rightarrow> False)"

definition dayjs_isSame :: "dayjs \<Rightarrow> dayjs \<Rightarrow> bool" where
  "dayjs_isSame x other =
     (case (dt x, dt other) of (Some a, Some b) \<Rightarrow> a \<le> b \<and> b \<le> a | _ \<Rightarrow> False)"

text \<open>
  \<^verbatim>\<open>diff(that, "day")\<close> between two objects made by \<^verbatim>\<open>dayjs(x)\<close>: the difference
  of the two time values, less the difference of the offsets of the two \<^verbatim>\<open>Date\<close>s,
  divided by the milliseconds of a day and rounded towards zero; \<^verbatim>\<open>NaN\<close> when a time
  value is.  The first argument of \<open>zoneDelta\<close> is the time value of the object, the
  second that of the other one.
\<close>

definition zoneDelta :: "host \<Rightarrow> int \<Rightarrow> int \<Rightarrow> int" where
  "zoneDelta h a b = (dayjs_utcOffset h b - dayjs_utcOffset h a) * msPerMinute"

definition diff_day :: "host \<Rightarrow> dayjs \<Rightarrow> dayjs \<Rightarrow> int option" where
  "diff_day h x that =
     (case (dt x, dt that) of
        (Some a, Some b) \<Rightarrow>
          (let diff = fsub (of_int a) (of_int b);
               result = fdiv (fsub diff (of_int (zoneDelta h a b))) (of_int msPerDay)
           in Some (absFloor result))
      | _ \<Rightarrow> None)"

text \<open>
  A day, or a year, of the calendar of a zone is representable when all of it lies within
  the range of time values.
\<close>

definition day_representable :: "int \<Rightarrow> int \<Rightarrow> bool" where
  "day_representable off d =
     (- maxTime \<le> UTC off (d * msPerDay) \<and> UTC off ((d + 1) * msPerDay) \<le> maxTime)"

definition year_representable :: "int \<Rightarrow> int \<Rightarrow> bool" where
  "year_representable off y =
     (- maxTime \<le> UTC off (DayFromYear y * msPerDay)
      \<and> UTC off (DayFromYear (y + 1) * msPerDay) \<le> maxTime)"

section \<open>The class DateTime\<close>

text \<open>
  The class of \<^verbatim>\<open>src/utils/dateTime.ts\<close>.  Its one field is the private \<^verbatim>\<open>#date\<close>.
  The definitions follow the file: the constructor (lines 17 to 32),
  \<open>formatSafariSupport\<close> (44 to 46), \<open>isDate\<close> (48), \<open>toJpString\<close> (53 to 57),
  \<open>toJpStringWithWeek\<close> (62 to 67), \<open>toOnlyTime\<close> (73 to 82), the formats with dayjs
  (87 to 110 and 147 to 149), \<open>afterDay\<close>, \<open>addDate\<close> and \<open>subtractDate\<close> (116 to 134),
  \<open>yearsLaterNewYearsDate\<close> (140 to 142), \<open>isBefore\<close> (154 to 156), \<open>DaysDiff\<close>
  (161 to 163), \<open>isSameDate\<close> (168 to 170) and the generator of entry times (175 to 186).
  Every method takes the host first and the value second; a number is an integer.
\<close>

record DateTime =
  date :: timevalue

datatype ctor_input = DateObj timevalue | Str jsstring | Null | Undefined

datatype error = TypeError

definition formatSafariSupport :: "jsstring \<Rightarrow> jsstring" where
  "formatSafariSupport v = map (\<lambda>c. if c = chr_minus then chr_slash else c) v"

definition isDate :: "host \<Rightarrow> jsstring \<Rightarrow> bool" where
  "isDate h v = (new_Date_string h v \<noteq> None)"

definition new_DateTime :: "host \<Rightarrow> ctor_input \<Rightarrow> DateTime" where
  "new_DateTime h inp =
     (case inp of
        DateObj d \<Rightarrow> \<lparr>date = d\<rparr>
      | Str s \<Rightarrow>
          (let safariSupportDate = formatSafariSupport s
           in if isDate h safariSupportDate
              then \<lparr>date = new_Date_string h safariSupportDate\<rparr>
              else \<lparr>date = new_Date_now h\<rparr>)
      | Null \<Rightarrow> \<lparr>date = new_Date_now h\<rparr>
      | Undefined \<Rightarrow> \<lparr>date = new_Date_now h\<rparr>)"

definition toJpString :: "host \<Rightarrow> DateTime \<Rightarrow> jsstring" where
  "toJpString h v =
     string_of_number (getFullYear (utcOffset h) (date v)) @ [chr_nen]
     @ string_of_number (map_option (\<lambda>m. m + 1) (getMonth (utcOffset h) (date v)))
     @ [chr_gatsu]
     @ string_of_number (getDate (utcOffset h) (date v)) @ [chr_nichi]"

text \<open>The table of the days of the week, Sunday first: U+65E5, U+6708, U+706B, U+6C34,
  U+6728, U+91D1, U+571F.\<close>

definition week :: "jsstring list" where
  "week = [[0x65E5], [0x6708], [0x706B], [0x6C34], [0x6728], [0x91D1], [0x571F]]"

definition toJpStringWithWeek :: "host \<Rightarrow> DateTime \<Rightarrow> jsstring" where
  "toJpStringWithWeek h v =
     (let dayOfWeek =
            (case getDay (utcOffset h) (date v) of None \<Rightarrow> None
             | Some i \<Rightarrow> if i < 0 then None else nth_opt week (nat i))
      in case dayOfWeek of None \<Rightarrow> [chr_chouon]
         | Some w \<Rightarrow> toJpString h v @ [chr_lparen] @ w @ [chr_rparen])"

text \<open>The pattern \<^verbatim>\<open>/^[0-9]{1,2}:[0-9]{2}:[0-9]{2}$/\<close>.\<close>

definition digits_between :: "nat \<Rightarrow> nat \<Rightarrow> jsstring \<Rightarrow> bool" where
  "digits_between lo hi s = (lo \<le> length s \<and> length s \<le> hi \<and> list_all is_digit s)"

definition re_hms :: "jsstring \<Rightarrow> bool" where
  "re_hms s =
     (case split_on chr_colon s of
        [a, b, c] \<Rightarrow> digits_between 1 2 a \<and> digits_between 2 2 b \<and> digits_between 2 2 c
      | _ \<Rightarrow> False)"

text \<open>
  \<^verbatim>\<open>toOnlyTime\<close> calls a method on the second piece of the locale string and reads the
  length of the first piece of the time: each raises a \<^verbatim>\<open>TypeError\<close> on
  \<^verbatim>\<open>undefined\<close>.  A missing second piece of the time prints as \<^verbatim>\<open>undefined\<close>.
\<close>

definition toOnlyTime :: "host \<Rightarrow> DateTime \<Rightarrow> error + jsstring" where
  "toOnlyTime h v =
     (let localeString = split_on chr_space (toLocaleString_ja (utcOffset h) (date v))
      in case nth_opt localeString 1 of
           None \<Rightarrow> Inl TypeError
         | Some t \<Rightarrow>
             if re_hms t
             then (case split_on chr_colon t of
                     [] \<Rightarrow> Inl TypeError
                   | [hh] \<Rightarrow>
                       Inr (if length hh = 1 then chr_zero # hh @ chr_colon # js ''undefined''
                            else hh @ chr_colon # js ''undefined'')
                   | hh # mm # _ \<Rightarrow>
                       Inr (if length hh = 1 then chr_zero # hh @ chr_colon # mm
                            else hh @ chr_colon # mm))
             else Inr t)"

definition toDateString :: "host \<Rightarrow> DateTime \<Rightarrow> jsstring" where
  "toDateString h v = format (tz h (dayjs_of_date h (date v))) fmt_date"

definition toDateJpString :: "host \<Rightarrow> DateTime \<Rightarrow> jsstring" where
  "toDateJpString h v = format (tz h (dayjs_of_date h (date v))) fmt_date_jp"

definition toDateStringWithTime :: "host \<Rightarrow> DateTime \<Rightarrow> jsstring" where
  "toDateStringWithTime h v = format (tz h (dayjs_of_date h (date v))) fmt_date_hm"

definition toDateTimeString :: "host \<Rightarrow> DateTime \<Rightarrow> jsstring" where
  "toDateTimeString h v = format (tz h (dayjs_of_date h (date v))) fmt_date_hms"

definition afterDay :: "host \<Rightarrow> DateTime \<Rightarrow> int \<Rightarrow> jsstring" where
  "afterDay h v day = format (add_days day (tz h (dayjs_of_date h (date v)))) fmt_date"

definition addDate :: "host \<Rightarrow> DateTime \<Rightarrow> int \<Rightarrow> DateTime" where
  "addDate h v day =
     new_DateTime h (DateObj (toDate h (add_days day (tz h (dayjs_of_date h (date v))))))"

definition subtractDate :: "host \<Rightarrow> DateTime \<Rightarrow> int \<Rightarrow> DateTime" where
  "subtractDate h v day =
     new_DateTime h
       (DateObj (toDate h (subtract_days day (tz h (dayjs_of_date h (date v))))))"

definition yearsLaterNewYearsDate :: "host \<Rightarrow> DateTime \<Rightarrow> int \<Rightarrow> jsstring" where
  "yearsLaterNewYearsDate h v year =
     format (startOf_year (add_years year (dayjs_now h))) fmt_date"

definition toDateName :: "host \<Rightarrow> DateTime \<Rightarrow> jsstring" where
  "toDateName h v = format (tz h (dayjs_of_date h (date v))) fmt_name"

definition isBefore :: "host \<Rightarrow> DateTime \<Rightarrow> jsstring \<Rightarrow> bool" where
  "isBefore h v d = dayjs_isBefore (dayjs_of_date h (date v)) (dayjs_of_string h d)"

definition DaysDiff :: "host \<Rightarrow> DateTime \<Rightarrow> jsstring \<Rightarrow> int option" where
  "DaysDiff h v d = diff_day h (dayjs_of_date h (date v)) (dayjs_of_string h d)"

definition isSameDate :: "host \<Rightarrow> DateTime \<Rightarrow> ctor_input \<Rightarrow> bool" where
  "isSameDate h v d =
     dayjs_isSame (dayjs_of_date h (date v)) (dayjs_of_date h (date (new_DateTime h d)))"

text \<open>
  The generator of the entry times of the salon, every thirty minutes (its name in the
  source is written in Japanese).  The loop runs \<open>i\<close> from 8 while \<open>i < 20\<close> and pushes
  two strings in each round.
\<close>

function entry_times_loop :: "host \<Rightarrow> jsstring \<Rightarrow> nat \<Rightarrow> jsstring list \<Rightarrow> jsstring list" where
  "entry_times_loop h d i timesArray =
     (if i < 20
      then (let hour = set_second 0 (set_minute 0 (set_hour (int i)
                         (dayjs_of_date h (date (new_DateTime h (Str d))))));
                timesArray1 = timesArray @ [format hour fmt_date_hms];
                time = add_minutes 30 hour;
                timesArray2 = timesArray1 @ [format time fmt_date_hms]
            in entry_times_loop h d (i + 1) timesArray2)
      else timesArray)"
  by pat_completeness auto
termination
  by (relation "measure (\<lambda>(h, d, i, a). 20 - i)") auto

declare entry_times_loop.simps [simp del]

definition entry_times :: "host \<Rightarrow> DateTime \<Rightarrow> jsstring \<Rightarrow> jsstring list" where
  "entry_times h v d = entry_times_loop h d 8 []"

subsection \<open>Every operation, as one call\<close>

datatype operation =
    ToJpString | ToJpStringWithWeek | ToOnlyTime | ToDateString | ToDateJpString
  | ToDateStringWithTime | ToDateTimeString | AfterDay int | AddDate int
  | SubtractDate int | YearsLaterNewYearsDate int | ToDateName | IsBefore jsstring
  | DaysDiffOp jsstring | IsSameDate ctor_input | EntryTimes jsstring

datatype outcome =
    OutString jsstring | OutDateTime DateTime | OutBool bool | OutNumber "int option"
  | OutStrings "jsstring list"

definition call :: "host \<Rightarrow> DateTime \<Rightarrow> operation \<Rightarrow> error + outcome" where
  "call h v op =
     (case op of
        ToJpString \<Rightarrow> Inr (OutString (toJpString h v))
      | ToJpStringWithWeek \<Rightarrow> Inr (OutString (toJpStringWithWeek h v))
      | ToOnlyTime \<Rightarrow> map_sum id OutString (toOnlyTime h v)
      | ToDateString \<Rightarrow> Inr (OutString (toDateString h v))
      | ToDateJpString \<Rightarrow> Inr (OutString (toDateJpString h v))
      | ToDateStringWithTime \<Rightarrow> Inr (OutString (toDateStringWithTime h v))
      | ToDateTimeString \<Rightarrow> Inr (OutString (toDateTimeString h v))
      | AfterDay n \<Rightarrow> Inr (OutString (afterDay h v n))
      | AddDate n \<Rightarrow> Inr (OutDateTime (addDate h v n))
      | SubtractDate n \<Rightarrow> Inr (OutDateTime (subtractDate h v n))
      | YearsLaterNewYearsDate n \<Rightarrow> Inr (OutString (yearsLaterNewYearsDate h v n))
      | ToDateName \<Rightarrow> Inr (OutString (toDateName h v))
      | IsBefore s \<Rightarrow> Inr (OutBool (isBefore h v s))
      | DaysDiffOp s \<Rightarrow> Inr (OutNumber (DaysDiff h v s))
      | IsSameDate d \<Rightarrow> Inr (OutBool (isSameDate h v d))
      | EntryTimes s \<Rightarrow> Inr (OutStrings (entry_times h v s)))"

subsection \<open>Strings that differ in their separators, and instants that are kept\<close>

text \<open>
  Two strings differ only in their separators when they have the same length and, place
  by place, the same character, or a minus sign in one and a slash in the other.
\<close>

definition same_or_separators :: "16 word \<Rightarrow> 16 word \<Rightarrow> bool" where
  "same_or_separators a b =
     (a = b \<or> (a = chr_minus \<and> b = chr_slash) \<or> (a = chr_slash \<and> b = chr_minus))"

definition differ_only_in_separators :: "jsstring \<Rightarrow> jsstring \<Rightarrow> bool" where
  "differ_only_in_separators s1 s2 = list_all2 same_or_separators s1 s2"

text \<open>
  \<^verbatim>\<open>tz()\<close> is faithful at a time value \<open>t\<close> when the \<^verbatim>\<open>Date\<close> it reads back is the
  wall clock of UTC+9 at \<open>t\<close>, cut to the second, as a local time of the host, and both
  \<open>t\<close> and that wall clock, as a local time of the host, are within the range of time
  values.
\<close>

definition tz_faithful :: "host \<Rightarrow> int \<Rightarrow> bool" where
  "tz_faithful h t =
     (let wall = t + (tokyoOffset - utcOffset h) * msPerMinute
      in \<bar>t\<bar> \<le> maxTime \<and> \<bar>wall\<bar> \<le> maxTime
         \<and> tz_target h t = Some (wall - t mod msPerSecond))"

subsection \<open>Hosts for the examples\<close>

text \<open>
  A host in Tokyo, nine hours east of UTC at every time value, that reads back the wall
  clock of Tokyo as it is.  Its parsers know the strings of the examples and no other:
  a date with slashes is read in the host's zone, and so is a date read by dayjs.  The
  clock stands at 2024-03-01 10:15:00 of that zone.
\<close>

definition example_table :: "(jsstring \<times> int) list" where
  "example_table =
     [(js ''2024/03/01'', 1709218800000),
      (js ''2024/03/01 10:15:00'', 1709255700000),
      (js ''2024/03/01 10:15:01'', 1709255701000),
      (js ''2024/03/02'', 1709305200000),
      (js ''Sat, 13 Sep 275760 00:00:00 GMT'', 8640000000000000)]"

definition example_dayjs_table :: "(jsstring \<times> int) list" where
  "example_dayjs_table =
     [(js ''2024-03-01'', 1709218800000),
      (js ''2024/03/01'', 1709218800000),
      (js ''2024-03-02'', 1709305200000)]"

definition example_host :: host where
  "example_host =
     \<lparr>Date_parse = map_of example_table, dayjs_parse = map_of example_dayjs_table,
      utcOffset = 540, clock = 1709255700000,
      getTimezoneOffset = (\<lambda>t. - 540), tz_target = (\<lambda>t. Some (t - t mod 1000))\<rparr>"


text \<open>
  A host at UTC whose engine reads back the wall clock of Tokyo as that zone was: at its
  local mean time, 9 hours 18 minutes 59 seconds from UTC, before 1887-12-31 15:00 UTC,
  and at nine hours after.
\<close>

definition example_host_utc :: host where
  "example_host_utc =
     \<lparr>Date_parse = map_of [], dayjs_parse = map_of [], utcOffset = 0, clock = 0,
      getTimezoneOffset = (\<lambda>t. 0),
      tz_target = (\<lambda>t. Some (t - t mod 1000
                     + (if t < - 2587712400000 then 33539000 else 32400000)))\<rparr>"

section \<open>Evaluation of the examples\<close>

lemma js_simps: "js [] = []" "js (c # cs) = of_nat (of_char c) # js cs"
  by (simp_all add: js_def)

lemmas calendar_defs =
  Day_def TimeWithinDay_def DayFromYear_def isLeap_def YearFromDay_def YearFromTime_def
  InLeapYear_def DayWithinYear_def monthStart_def monthOfDay_def MonthFromTime_def
  DateFromTime_def WeekDay_def HourFromTime_def MinFromTime_def SecFromTime_def
  msFromTime_def MakeTime_def MakeDay_def MakeDate_def TimeClip_def LocalTime_def UTC_def
  msPerDay_def msPerHour_def msPerMinute_def msPerSecond_def maxTime_def tokyoOffset_def

lemma digits_small: "n < 10 \<Longrightarrow> digits n = [digit_char n]"
  by (simp add: digits.simps)

lemma digits_large: "10 \<le> n \<Longrightarrow> digits n = digits (n div 10) @ [digit_char n]"
  by (subst digits.simps) simp

lemmas string_defs =
  js_simps digits_small digits_large digit_char_def string_of_int_def string_of_number_def padStart_def
  pad2_def chr_minus_def chr_slash_def chr_space_def chr_colon_def chr_zero_def

lemmas format_defs =
  format_def render_def fmt_date_def fmt_date_hm_def fmt_date_hms_def fmt_name_def

lemma normalize_0301: "formatSafariSupport (js ''2024-03-01'') = js ''2024/03/01''"
  by (simp add: formatSafariSupport_def js_simps chr_minus_def chr_slash_def)

lemma normalize_0301_slash: "formatSafariSupport (js ''2024/03/01'') = js ''2024/03/01''"
  by (simp add: formatSafariSupport_def js_simps chr_minus_def chr_slash_def)

lemma example_Date_0301:
  "new_Date_string example_host (js ''2024/03/01'') = Some 1709218800000"
  by (simp add: new_Date_string_def example_host_def example_table_def js_simps clip_def
      TimeClip_def maxTime_def)


lemma example_dayjs_0302:
  "dt (dayjs_of_string example_host (js ''2024-03-02'')) = Some 1709305200000"
  by (simp add: dayjs_of_string_def example_host_def example_dayjs_table_def js_simps
      clip_def TimeClip_def maxTime_def)

section \<open>Rounding to doubles\<close>

text \<open>
  What is used of the rounding: it is monotone at the integers, it leaves an integer
  below \<open>2 ^ 53\<close> as it is, and it moves a number below \<open>2 ^ m\<close> by at most
  \<open>2 ^ (m - 54)\<close>.  So the quotient of an integer below \<open>2 ^ 53\<close> by the
  milliseconds of a day, rounded, has the integral part of the exact quotient, and the
  minutes between two \<^verbatim>\<open>Date\<close>s that are a whole number of minutes and less than a
  second apart are rounded to that number.
\<close>

lemma rhe_bounds:
  "\<lfloor>x\<rfloor> \<le> round_half_even x" "round_half_even x \<le> \<lceil>x\<rceil>"
  "round_half_even x \<le> \<lfloor>x + 1 / 2\<rfloor>" "\<lceil>x - 1 / 2\<rceil> \<le> round_half_even x"
  unfolding round_half_even_def Let_def
  by (auto simp add: le_floor_iff ceiling_le_iff) linarith+

lemma rhe_int: "round_half_even (of_int n) = n"
  by (simp add: round_half_even_def)

lemma rhe_close: "\<bar>of_int (round_half_even x) - x\<bar> \<le> 1 / 2"
proof -
  have "of_int \<lfloor>x\<rfloor> \<le> x" "x < of_int \<lfloor>x\<rfloor> + 1" by linarith+
  then show ?thesis
    unfolding round_half_even_def Let_def by (auto simp add: abs_le_iff)
qed

lemma ilog2_less:
  assumes "0 < a" and "a < 2 ^ m" and "0 < m"
  shows "ilog2 a < int m"
proof (cases "1 \<le> a")
  case True
  have "\<lfloor>a\<rfloor> < 2 ^ m"
    using assms(2) by (simp add: floor_less_iff)
  then have "bitlen \<lfloor>a\<rfloor> \<le> int m"
    by (simp add: bitlen_le_iff_power)
  with True show ?thesis by (simp add: ilog2_def)
next
  case False
  have "0 \<le> bitlen (\<lceil>1 / a\<rceil> - 1)" by (rule bitlen_nonneg)
  with False assms(3) show ?thesis by (simp add: ilog2_def)
qed

lemma pow2_nonpos: "k \<le> 0 \<Longrightarrow> pow2 k = 1 / 2 ^ nat (- k)"
  by (simp add: pow2_def)

lemma RN_grid:
  assumes "q \<noteq> 0" and "\<bar>q\<bar> < 2 ^ m" and "0 < m" and "m \<le> 53"
  shows "\<exists>N. RN q = of_int (round_half_even (q * 2 ^ N)) / 2 ^ N \<and> 53 \<le> N + m"
proof -
  have e: "ilog2 \<bar>q\<bar> < int m"
    using assms by (intro ilog2_less) simp_all
  define N where "N = nat (52 - ilog2 \<bar>q\<bar>)"
  have k: "ilog2 \<bar>q\<bar> - 52 \<le> 0" using e assms(4) by simp
  have u: "pow2 (ilog2 \<bar>q\<bar> - 52) = 1 / 2 ^ N"
    using pow2_nonpos [OF k] by (simp add: N_def)
  have "RN q = of_int (round_half_even (q * 2 ^ N)) / 2 ^ N"
    using assms(1) by (simp add: RN_def Let_def u)
  moreover have "53 \<le> N + m" using e assms(4) by (simp add: N_def)
  ultimately show ?thesis by blast
qed

lemma RN_ge_int:
  assumes "of_int j \<le> q" and "\<bar>q\<bar> < 2 ^ 53"
  shows "of_int j \<le> RN q"
proof (cases "q = 0")
  case True
  with assms(1) show ?thesis by (simp add: RN_def)
next
  case False
  from RN_grid [OF False assms(2)] obtain N
    where r: "RN q = of_int (round_half_even (q * 2 ^ N)) / 2 ^ N" by auto
  have "of_int (j * 2 ^ N) \<le> q * 2 ^ N"
    using assms(1) by simp
  then have "j * 2 ^ N \<le> \<lfloor>q * 2 ^ N\<rfloor>"
    by (simp add: le_floor_iff)
  also have "\<dots> \<le> round_half_even (q * 2 ^ N)" by (rule rhe_bounds)
  finally have "rat_of_int (j * 2 ^ N) \<le> of_int (round_half_even (q * 2 ^ N))"
    by (simp only: of_int_le_iff)
  then show ?thesis
    by (simp add: r pos_le_divide_eq)
qed

lemma RN_le_int:
  assumes "q \<le> of_int j" and "\<bar>q\<bar> < 2 ^ 53"
  shows "RN q \<le> of_int j"
proof (cases "q = 0")
  case True
  with assms(1) show ?thesis by (simp add: RN_def)
next
  case False
  from RN_grid [OF False assms(2)] obtain N
    where r: "RN q = of_int (round_half_even (q * 2 ^ N)) / 2 ^ N" by auto
  have "q * 2 ^ N \<le> of_int (j * 2 ^ N)"
    using assms(1) by simp
  then have "\<lceil>q * 2 ^ N\<rceil> \<le> j * 2 ^ N"
    by (simp add: ceiling_le_iff)
  with rhe_bounds(2) [of "q * 2 ^ N"] have "round_half_even (q * 2 ^ N) \<le> j * 2 ^ N"
    by linarith
  then have "rat_of_int (round_half_even (q * 2 ^ N)) \<le> of_int (j * 2 ^ N)"
    by (simp only: of_int_le_iff)
  then show ?thesis
    by (simp add: r pos_divide_le_eq)
qed

lemma RN_of_int:
  assumes "\<bar>n\<bar> < 2 ^ 53"
  shows "RN (of_int n) = of_int n"
proof -
  have a: "\<bar>rat_of_int n\<bar> < 2 ^ 53"
    using assms by (metis of_int_abs of_int_less_numeral_power_cancel_iff)
  from RN_ge_int [of n "of_int n", OF _ a] RN_le_int [of "of_int n" n, OF _ a]
  show ?thesis by simp
qed

lemma RN_close:
  assumes "\<bar>q\<bar> < 2 ^ m" and "0 < m" and "m \<le> 53"
  shows "\<bar>RN q - q\<bar> \<le> 1 / 2 ^ (54 - m)"
proof (cases "q = 0")
  case True
  then show ?thesis by (simp add: RN_def)
next
  case False
  from RN_grid [OF False assms] obtain N
    where r: "RN q = of_int (round_half_even (q * 2 ^ N)) / 2 ^ N" and n: "53 \<le> N + m"
    by auto
  have "RN q - q = (of_int (round_half_even (q * 2 ^ N)) - q * 2 ^ N) / 2 ^ N"
    by (simp add: r diff_divide_distrib)
  then have "\<bar>RN q - q\<bar> = \<bar>of_int (round_half_even (q * 2 ^ N)) - q * 2 ^ N\<bar> / 2 ^ N"
    by (simp add: abs_divide)
  also have "\<dots> \<le> (1 / 2) / 2 ^ N"
    by (intro divide_right_mono rhe_close) simp
  also have "\<dots> = 1 / 2 ^ (N + 1)" by simp
  also have "\<dots> \<le> 1 / 2 ^ (54 - m)"
    using n by (intro divide_left_mono power_increasing) simp_all
  finally show ?thesis .
qed




lemma Math_round_minutes:
  assumes "0 \<le> ms" and "ms < 1000" and "\<bar>k\<bar> \<le> 2000"
  shows "Math_round (RN (RN (of_int (ms - k * 60000) / 1000) / 60)) = - k"
proof -
  define x1 where "x1 = rat_of_int (ms - k * 60000) / 1000"
  define y1 where "y1 = RN x1"
  define y2 where "y2 = RN (y1 / 60)"
  have x1: "x1 = of_int ms / 1000 - of_int k * 60"
    by (simp add: x1_def diff_divide_distrib)
  have m: "0 \<le> rat_of_int ms" "rat_of_int ms < 1000"
    using assms(1,2) by simp_all
  have kk: "\<bar>rat_of_int k\<bar> \<le> 2000"
    using assms(3) by (metis of_int_abs of_int_le_iff of_int_numeral)
  have e: "(1::rat) / 2 ^ (54 - 20) \<le> 1 / 1000" by simp
  have k1: "rat_of_int k \<le> 2000" "- 2000 \<le> rat_of_int k"
    using kk by linarith+
  have b0: "x1 < 1000000" "- 1000000 < x1"
    using m k1 unfolding x1 by linarith+
  then have b1: "\<bar>x1\<bar> < 2 ^ 20" by simp
  have "\<bar>y1 - x1\<bar> \<le> 1 / 2 ^ (54 - 20)"
    unfolding y1_def by (rule RN_close [OF b1]) simp_all
  with e have c1: "y1 - x1 \<le> 1 / 1000" "x1 - y1 \<le> 1 / 1000"
    by linarith+
  have "y1 / 60 < 1000000" "- 1000000 < y1 / 60"
    using b0 c1 by linarith+
  then have b2: "\<bar>y1 / 60\<bar> < 2 ^ 20" by simp
  have "\<bar>y2 - y1 / 60\<bar> \<le> 1 / 2 ^ (54 - 20)"
    unfolding y2_def by (rule RN_close [OF b2]) simp_all
  with e have c2: "y2 - y1 / 60 \<le> 1 / 1000" "y1 / 60 - y2 \<le> 1 / 1000"
    by linarith+
  have "of_int (- k) \<le> y2 + 1 / 2" "y2 + 1 / 2 < of_int (- k) + 1"
    using m c1 c2 unfolding x1 by (simp_all only: of_int_minus)
  then have "\<lfloor>y2 + 1 / 2\<rfloor> = - k"
    by (intro floor_unique)
  then show ?thesis
    by (simp add: Math_round_def y2_def y1_def x1_def)
qed


lemma dayjs_utcOffset_fixed:
  assumes "getTimezoneOffset h t = - off" and "off mod 15 = 0" and "\<bar>off\<bar> \<le> 1440"
  shows "dayjs_utcOffset h t = off"
proof -
  from assms(2) obtain j where j: "off = 15 * j" by (auto simp add: mod_eq_0_iff_dvd)
  have "\<bar>- j\<bar> < 2 ^ 53" using assms(3) j by simp
  then have r: "RN (of_int (- j)) = of_int (- j)" by (rule RN_of_int)
  have q: "rat_of_int (- off) / 15 = of_int (- j)" by (simp add: j)
  have "Math_round (of_int (- j)) = - j"
    unfolding Math_round_def by (intro floor_unique) simp_all
  then show ?thesis
    by (simp only: dayjs_utcOffset_def fdiv_def assms(1) q r) (simp add: j)
qed

section \<open>The constructor\<close>

text \<open>
  What the constructor stores.  A \<^verbatim>\<open>Date\<close> is kept as it is.  A string is rewritten
  by \<open>formatSafariSupport\<close> and parsed: the instant is the parsed one when the parse is
  valid and the clock's otherwise, so it is never \<^verbatim>\<open>NaN\<close>.  For \<^verbatim>\<open>null\<close> and
  \<^verbatim>\<open>undefined\<close> the instant is the clock's.
\<close>

lemma new_DateTime_instant:
  "date (new_DateTime h (DateObj d)) = d
   \<and> date (new_DateTime h (Str s)) =
       (if isDate h (formatSafariSupport s) then new_Date_string h (formatSafariSupport s)
        else Some (clock h))
   \<and> date (new_DateTime h (Str s)) \<noteq> None
   \<and> date (new_DateTime h Null) = Some (clock h)
   \<and> date (new_DateTime h Undefined) = Some (clock h)"
  by (simp add: new_DateTime_def new_Date_now_def isDate_def Let_def)

text \<open>
  Claim C1: every construction holds a valid instant, and an input that cannot be read
  as a date gives the instant of the clock.  The code misses one case.  The Invalid Date
  is an instance of \<^verbatim>\<open>Date\<close>; the first branch of the constructor keeps it without
  the test of \<open>isDate\<close> that the branch of the strings applies, and the instant held is
  \<^verbatim>\<open>NaN\<close>, not the clock's.
\<close>

theorem new_DateTime_invalid_date:
  "date (new_DateTime example_host (DateObj None)) = None
   \<and> date (new_DateTime example_host (DateObj None)) \<noteq> Some (clock example_host)"
  by (simp add: new_DateTime_def)

text \<open>
  Strings that differ only in their separators have the same rewriting by
  \<open>formatSafariSupport\<close>, which is the spelling with a slash at each of these places.
\<close>

lemma formatSafariSupport_separators:
  assumes "differ_only_in_separators s1 s2"
  shows "formatSafariSupport s1 = formatSafariSupport s2"
  using assms unfolding differ_only_in_separators_def
  by (induction rule: list_all2_induct)
     (auto simp add: formatSafariSupport_def same_or_separators_def)

lemma formatSafariSupport_no_minus:
  assumes "chr_minus \<notin> set t"
  shows "formatSafariSupport t = t"
  using assms by (induction t) (auto simp add: formatSafariSupport_def)

lemma formatSafariSupport_slash_form:
  assumes "differ_only_in_separators s t" and "chr_minus \<notin> set t"
  shows "formatSafariSupport s = t"
  using formatSafariSupport_separators [OF assms(1)] formatSafariSupport_no_minus [OF assms(2)]
  by simp

lemma example_separators_0301:
  "differ_only_in_separators (js ''2024-03-01'') (js ''2024/03/01'')"
  "differ_only_in_separators (js ''2024-03-01'') (js ''2024-03-01'')"
  "chr_minus \<notin> set (js ''2024/03/01'')"
  by (simp_all add: differ_only_in_separators_def same_or_separators_def js_simps
      chr_minus_def chr_slash_def)

text \<open>
  Claim C3.  Let two strings differ only in writing \<^verbatim>\<open>-\<close> or \<^verbatim>\<open>/\<close> at some
  places, and let \<open>t\<close> be their spelling with \<^verbatim>\<open>/\<close> at all of these places.  When
  the engine reads \<open>t\<close> as a date, the two constructions hold the same instant, the one
  read from \<open>t\<close>, whatever the clocks of the hosts.
\<close>

theorem construct_separator_invariant:
  assumes "differ_only_in_separators s1 s2"
    and "differ_only_in_separators s1 t" and "chr_minus \<notin> set t"
    and "new_Date_string h t \<noteq> None"
    and "Date_parse h' = Date_parse h"
  shows "date (new_DateTime h (Str s1)) = date (new_DateTime h' (Str s2))
         \<and> date (new_DateTime h (Str s1)) = new_Date_string h t"
proof -
  have a: "formatSafariSupport s1 = t"
    by (rule formatSafariSupport_slash_form [OF assms(2,3)])
  have b: "formatSafariSupport s2 = t"
    using formatSafariSupport_separators [OF assms(1)] a by simp
  have p: "new_Date_string h' t = new_Date_string h t"
    using assms(5) by (simp add: new_Date_string_def)
  show ?thesis
    using assms(4) by (simp add: new_DateTime_def isDate_def Let_def a b p)
qed

theorem construct_separator_invariant_witness:
  "differ_only_in_separators (js ''2024-03-01'') (js ''2024/03/01'')
   \<and> chr_minus \<notin> set (js ''2024/03/01'')
   \<and> new_Date_string example_host (js ''2024/03/01'') = Some 1709218800000
   \<and> date (new_DateTime example_host (Str (js ''2024-03-01''))) = Some 1709218800000
   \<and> date (new_DateTime (example_host\<lparr>clock := 0\<rparr>) (Str (js ''2024/03/01'')))
       = Some 1709218800000"
proof -
  have v: "new_Date_string example_host (js ''2024/03/01'') \<noteq> None"
    by (simp add: example_Date_0301)
  have c: "Date_parse (example_host\<lparr>clock := 0\<rparr>) = Date_parse example_host"
    by simp
  from construct_separator_invariant
    [OF example_separators_0301(1) example_separators_0301(1) example_separators_0301(3) v c]
  have e: "date (new_DateTime example_host (Str (js ''2024-03-01'')))
             = date (new_DateTime (example_host\<lparr>clock := 0\<rparr>) (Str (js ''2024/03/01'')))"
    and f0: "date (new_DateTime example_host (Str (js ''2024-03-01'')))
             = new_Date_string example_host (js ''2024/03/01'')"
    by blast+
  have f: "date (new_DateTime example_host (Str (js ''2024-03-01''))) = Some 1709218800000"
    by (simp only: f0 example_Date_0301)
  from e f
  have g: "date (new_DateTime (example_host\<lparr>clock := 0\<rparr>) (Str (js ''2024/03/01'')))
      = Some 1709218800000"
    by (simp only:)
  from f g example_separators_0301 example_Date_0301 show ?thesis by blast
qed

section \<open>The comparisons\<close>







text \<open>
  Claim C8.  When dayjs reads the string as an instant, \<open>isBefore\<close> holds exactly when
  the value holds an instant strictly earlier than it.
\<close>

theorem isBefore_strictly_earlier:
  assumes "dt (dayjs_of_string h s) = Some b"
  shows "isBefore h v s \<longleftrightarrow> (\<exists>a. date v = Some a \<and> a < b)"
  using assms
  by (cases "date v") (simp_all add: isBefore_def dayjs_isBefore_def dayjs_of_date_def)

theorem isBefore_strictly_earlier_witness:
  "dt (dayjs_of_string example_host (js ''2024-03-02'')) = Some 1709305200000
   \<and> isBefore example_host \<lparr>date = Some 1709255700000\<rparr> (js ''2024-03-02'')
   \<and> \<not> isBefore example_host \<lparr>date = Some 1709305200000\<rparr> (js ''2024-03-02'')"
  using isBefore_strictly_earlier [OF example_dayjs_0302, of "\<lparr>date = Some 1709255700000\<rparr>"]
    isBefore_strictly_earlier [OF example_dayjs_0302, of "\<lparr>date = Some 1709305200000\<rparr>"]
  by (simp add: example_dayjs_0302)

text \<open>
  Claim C10.  \<open>isSameDate\<close> holds exactly when the value and the constructed argument
  hold the same instant, to the millisecond: two times of one calendar day are not the
  same.
\<close>

theorem isSameDate_full_instant:
  "isSameDate h v d \<longleftrightarrow> (\<exists>a. date v = Some a \<and> date (new_DateTime h d) = Some a)"
  by (cases "date v"; cases "date (new_DateTime h d)")
     (auto simp add: isSameDate_def dayjs_isSame_def dayjs_of_date_def)









section \<open>Facts of the calendar\<close>

lemma div_bounds:
  fixes x k :: int
  assumes "0 < k"
  shows "k * (x div k) \<le> x" and "x < k * (x div k) + k"
proof -
  have "x = k * (x div k) + x mod k" by simp
  moreover have "0 \<le> x mod k" "x mod k < k" using assms by simp_all
  ultimately show "k * (x div k) \<le> x" and "x < k * (x div k) + k" by linarith+
qed

lemma est_lower: "DayFromYear (1970 + (400 * d) div 146097 - 1) \<le> d"
proof -
  define q where "q = (400 * d) div 146097"
  define A where "A = (q - 0) div 4"
  define B where "B = (q + 68) div 100"
  define C where "C = (q + 368) div 400"
  have q: "146097 * q \<le> 400 * d"
    unfolding q_def by (rule div_bounds) simp
  have a: "4 * A \<le> q - 0"
    unfolding A_def by (rule div_bounds) simp
  have b: "q + 68 < 100 * B + 100"
    unfolding B_def by (rule div_bounds) simp
  have c: "400 * C \<le> q + 368"
    unfolding C_def by (rule div_bounds) simp
  have "DayFromYear (1970 + q - 1) = 365 * q - 365 + A - B + C"
    by (simp add: DayFromYear_def A_def B_def C_def add.commute)
  with q a b c have "DayFromYear (1970 + q - 1) \<le> d"
    by linarith
  then show ?thesis by (simp add: q_def)
qed

lemma est_upper: "d < DayFromYear (1970 + (400 * d) div 146097 + 2)"
proof -
  define q where "q = (400 * d) div 146097"
  define A where "A = (q + 3) div 4"
  define B where "B = (q + 71) div 100"
  define C where "C = (q + 371) div 400"
  have q: "400 * d < 146097 * q + 146097"
    unfolding q_def by (rule div_bounds) simp
  have a: "q + 3 < 4 * A + 4"
    unfolding A_def by (rule div_bounds) simp
  have b: "100 * B \<le> q + 71"
    unfolding B_def by (rule div_bounds) simp
  have c: "q + 371 < 400 * C + 400"
    unfolding C_def by (rule div_bounds) simp
  have "DayFromYear (1970 + q + 2) = 365 * q + 730 + A - B + C"
    by (simp add: DayFromYear_def A_def B_def C_def add.commute)
  with q a b c have "d < DayFromYear (1970 + q + 2)"
    by linarith
  then show ?thesis by (simp add: q_def)
qed

lemma YearFromDay_spec:
  "DayFromYear (YearFromDay d) \<le> d" "d < DayFromYear (YearFromDay d + 1)"
  using est_lower [of d] est_upper [of d] by (auto simp add: YearFromDay_def Let_def)

lemma div_step:
  fixes x k :: int
  assumes "0 < k"
  shows "(x + 1) div k = x div k + (if (x + 1) mod k = 0 then 1 else 0)"
proof (cases "x mod k = k - 1")
  case True
  have "x + 1 = k * (x div k) + x mod k + 1" by simp
  also have "\<dots> = k * (x div k) + k" using True by simp
  also have "\<dots> = k * (x div k + 1) + 0" by (simp add: algebra_simps)
  finally have x: "x + 1 = k * (x div k + 1) + 0" .
  have "(x + 1) div k = x div k + 1"
    by (rule int_div_pos_eq [OF x]) (use assms in simp_all)
  moreover have "(x + 1) mod k = 0"
    by (rule int_mod_pos_eq [OF x]) (use assms in simp_all)
  ultimately show ?thesis by simp
next
  case False
  have r: "0 \<le> x mod k" "x mod k < k" using assms by simp_all
  have x: "x + 1 = k * (x div k) + (x mod k + 1)" by simp
  have "(x + 1) div k = x div k"
    by (rule int_div_pos_eq [OF x]) (use r False in simp_all)
  moreover have "(x + 1) mod k = x mod k + 1"
    by (rule int_mod_pos_eq [OF x]) (use r False in simp_all)
  ultimately show ?thesis using r by simp
qed

lemma mod_shift:
  fixes y :: int
  shows "(y - 1968) mod 4 = y mod 4" "(y - 1900) mod 100 = y mod 100"
    "(y - 1600) mod 400 = y mod 400"
proof -
  have "(y + (- 492) * 4) mod 4 = y mod 4" by (rule mod_mult_self1)
  then show "(y - 1968) mod 4 = y mod 4" by simp
  have "(y + (- 19) * 100) mod 100 = y mod 100" by (rule mod_mult_self1)
  then show "(y - 1900) mod 100 = y mod 100" by simp
  have "(y + (- 4) * 400) mod 400 = y mod 400" by (rule mod_mult_self1)
  then show "(y - 1600) mod 400 = y mod 400" by simp
qed

lemma DayFromYear_Suc: "DayFromYear (y + 1) = DayFromYear y + DaysInYear y"
proof -
  have e: "y - 1969 + 1 = y - 1968" "y - 1901 + 1 = y - 1900" "y - 1601 + 1 = y - 1600"
    by simp_all
  have a: "(y - 1968) div 4 = (y - 1969) div 4 + (if y mod 4 = 0 then 1 else 0)"
    using div_step [of 4 "y - 1969"] by (simp add: e mod_shift)
  have b: "(y - 1900) div 100 = (y - 1901) div 100 + (if y mod 100 = 0 then 1 else 0)"
    using div_step [of 100 "y - 1901"] by (simp add: e mod_shift)
  have c: "(y - 1600) div 400 = (y - 1601) div 400 + (if y mod 400 = 0 then 1 else 0)"
    using div_step [of 400 "y - 1601"] by (simp add: e mod_shift)
  have d4: "y mod 4 = 0" if "y mod 100 = 0"
  proof -
    have "y mod 100 mod 4 = y mod 4" by (rule mod_mod_cancel) simp
    with that show ?thesis by simp
  qed
  have d100: "y mod 100 = 0" if "y mod 400 = 0"
  proof -
    have "y mod 400 mod 100 = y mod 100" by (rule mod_mod_cancel) simp
    with that show ?thesis by simp
  qed
  have s: "DayFromYear (y + 1) = 365 * (y - 1969) + (y - 1968) div 4 - (y - 1900) div 100
      + (y - 1600) div 400"
    by (simp add: DayFromYear_def)
  show ?thesis
  proof (cases "y mod 4 = 0")
    case False
    with d4 have n100: "y mod 100 \<noteq> 0" by auto
    with d100 have "y mod 400 \<noteq> 0" by auto
    note n100 this
    with False show ?thesis
      by (simp add: s a b c DayFromYear_def DaysInYear_def isLeap_def)
  next
    case m4: True
    show ?thesis
    proof (cases "y mod 100 = 0")
      case False
      with d100 have "y mod 400 \<noteq> 0" by auto
      with m4 False show ?thesis
        by (simp add: s a b c DayFromYear_def DaysInYear_def isLeap_def)
    next
      case m100: True
      show ?thesis
      proof (cases "y mod 400 = 0")
        case True
        with m4 m100 show ?thesis
          by (simp add: s a b c DayFromYear_def DaysInYear_def isLeap_def)
      next
        case False
        with m4 m100 show ?thesis
          by (simp add: s a b c DayFromYear_def DaysInYear_def isLeap_def)
      qed
    qed
  qed
qed


lemma DaysInYear_pos: "0 < DaysInYear y"
  by (simp add: DaysInYear_def)

lemma DayFromYear_mono:
  assumes "a \<le> b"
  shows "DayFromYear a \<le> DayFromYear b"
  using assms
proof (induction b rule: int_ge_induct)
  case base
  show ?case by simp
next
  case (step i)
  have "DayFromYear i \<le> DayFromYear (i + 1)"
    using DaysInYear_pos [of i] by (simp add: DayFromYear_Suc)
  with step show ?case by simp
qed

lemma YearFromDay_unique:
  assumes "DayFromYear y \<le> d" and "d < DayFromYear (y + 1)"
  shows "YearFromDay d = y"
proof (rule ccontr)
  assume n: "YearFromDay d \<noteq> y"
  note sp = YearFromDay_spec [of d]
  show False
  proof (cases "YearFromDay d < y")
    case True
    then have "DayFromYear (YearFromDay d + 1) \<le> DayFromYear y"
      by (intro DayFromYear_mono) simp
    with sp assms show False by simp
  next
    case False
    with n have "DayFromYear (y + 1) \<le> DayFromYear (YearFromDay d)"
      by (intro DayFromYear_mono) simp
    with sp assms show False by simp
  qed
qed

lemma monthStart_12: "monthStart (isLeap y) 12 = DaysInYear y"
  by (simp add: monthStart_def DaysInYear_def)

lemma monthOfDay_bounds:
  assumes "0 \<le> d" and "d < monthStart l 12"
  shows "monthStart l (monthOfDay l d) \<le> d" and "d < monthStart l (monthOfDay l d + 1)"
  using assms by (auto simp add: monthOfDay_def monthStart_def split: if_splits)

lemma month_cases:
  fixes m :: int
  assumes "0 \<le> m" and "m \<le> 11"
  shows "m = 0 \<or> m = 1 \<or> m = 2 \<or> m = 3 \<or> m = 4 \<or> m = 5 \<or> m = 6 \<or> m = 7 \<or> m = 8
         \<or> m = 9 \<or> m = 10 \<or> m = 11"
  using assms by arith

lemma monthOfDay_in_month:
  assumes "0 \<le> m" and "m \<le> 11" and "monthStart l m \<le> d" and "d < monthStart l (m + 1)"
  shows "monthOfDay l d = m"
  using month_cases [OF assms(1,2)] assms(3,4)
  by (elim disjE) (simp_all add: monthOfDay_def monthStart_def split: if_splits)

lemma monthStart_bounds:
  assumes "0 \<le> m" and "m \<le> 11"
  shows "0 \<le> monthStart l m" and "monthStart l m < monthStart l (m + 1)"
    and "monthStart l (m + 1) \<le> monthStart l 12"
  using month_cases [OF assms]
  by (auto simp add: monthStart_def)


lemma MonthFromTime_range: "0 \<le> MonthFromTime t" "MonthFromTime t \<le> 11"
  by (simp_all add: MonthFromTime_def monthOfDay_def)

lemma MakeDay_month:
  assumes "0 \<le> m" and "m \<le> 11"
  shows "MakeDay y m d = DayFromYear y + monthStart (isLeap y) m + d - 1"
proof -
  have "m div 12 = 0" "m mod 12 = m" using assms by simp_all
  then show ?thesis by (simp add: MakeDay_def Let_def)
qed

lemma TimeWithinDay_range: "0 \<le> TimeWithinDay t" "TimeWithinDay t < msPerDay"
  by (simp_all add: TimeWithinDay_def msPerDay_def)

lemma MakeDate_Day:
  assumes "0 \<le> tw" and "tw < msPerDay"
  shows "Day (MakeDate D tw) = D" and "TimeWithinDay (MakeDate D tw) = tw"
proof -
  have e: "MakeDate D tw = msPerDay * D + tw" by (simp add: MakeDate_def)
  show "Day (MakeDate D tw) = D"
    unfolding Day_def by (rule int_div_pos_eq [OF e assms])
  show "TimeWithinDay (MakeDate D tw) = tw"
    unfolding TimeWithinDay_def by (rule int_mod_pos_eq [OF e assms])
qed

text \<open>The fields of a time built from a date of the calendar.\<close>

lemma civil_fields:
  assumes m: "0 \<le> m" "m \<le> 11"
    and dd: "1 \<le> dd" "dd \<le> monthStart (isLeap y) (m + 1) - monthStart (isLeap y) m"
    and tw: "0 \<le> tw" "tw < msPerDay"
  shows "YearFromTime (MakeDate (DayFromYear y + monthStart (isLeap y) m + dd - 1) tw) = y"
    and "MonthFromTime (MakeDate (DayFromYear y + monthStart (isLeap y) m + dd - 1) tw) = m"
    and "DateFromTime (MakeDate (DayFromYear y + monthStart (isLeap y) m + dd - 1) tw) = dd"
proof -
  let ?D = "DayFromYear y + monthStart (isLeap y) m + dd - 1"
  let ?L = "MakeDate ?D tw"
  note mb = monthStart_bounds [OF m, of "isLeap y"]
  have D: "Day ?L = ?D" by (rule MakeDate_Day [OF tw])
  have lo: "DayFromYear y \<le> ?D" using mb(1) dd(1) by simp
  have hi: "?D < DayFromYear (y + 1)"
    using mb(3) dd(2) by (simp add: DayFromYear_Suc monthStart_12 [symmetric])
  show Y: "YearFromTime ?L = y"
    unfolding YearFromTime_def D by (rule YearFromDay_unique [OF lo hi])
  have W: "DayWithinYear ?L = monthStart (isLeap y) m + dd - 1"
    by (simp add: DayWithinYear_def D Y)
  show M: "MonthFromTime ?L = m"
    unfolding MonthFromTime_def InLeapYear_def Y W
    by (rule monthOfDay_in_month [OF m]) (use dd in simp_all)
  show "DateFromTime ?L = dd"
    by (simp add: DateFromTime_def InLeapYear_def Y W M)
qed

lemma DayWithinYear_range:
  "0 \<le> DayWithinYear t" "DayWithinYear t < monthStart (InLeapYear t) 12"
  using YearFromDay_spec [of "Day t"]
  by (simp_all add: DayWithinYear_def YearFromTime_def InLeapYear_def monthStart_12
      DayFromYear_Suc)

lemma DateFromTime_range:
  "1 \<le> DateFromTime t"
  "DateFromTime t \<le> monthStart (InLeapYear t) (MonthFromTime t + 1)
      - monthStart (InLeapYear t) (MonthFromTime t)"
  using monthOfDay_bounds [OF DayWithinYear_range, of t]
  by (simp_all add: DateFromTime_def MonthFromTime_def)

lemma clip_in_year:
  assumes "- maxTime \<le> UTC off (DayFromYear y * msPerDay)"
    and "UTC off (DayFromYear (y + 1) * msPerDay) \<le> maxTime"
    and m: "0 \<le> m" "m \<le> 11"
    and dd: "1 \<le> dd" "dd \<le> monthStart (isLeap y) (m + 1) - monthStart (isLeap y) m"
    and tw: "0 \<le> tw" "tw < msPerDay"
  shows "TimeClip (UTC off (MakeDate (DayFromYear y + monthStart (isLeap y) m + dd - 1) tw))
         = Some (UTC off (MakeDate (DayFromYear y + monthStart (isLeap y) m + dd - 1) tw))"
proof -
  let ?D = "DayFromYear y + monthStart (isLeap y) m + dd - 1"
  note mb = monthStart_bounds [OF m, of "isLeap y"]
  have lo: "DayFromYear y \<le> ?D" using mb(1) dd(1) by simp
  have hi: "?D + 1 \<le> DayFromYear (y + 1)"
    using mb(3) dd(2) by (simp add: DayFromYear_Suc monthStart_12 [symmetric])
  have "DayFromYear y * 86400000 \<le> ?D * 86400000" using lo by simp
  moreover have "(?D + 1) * 86400000 \<le> DayFromYear (y + 1) * 86400000"
    using hi by (simp only: mult_le_cancel_right) simp
  ultimately show ?thesis
    using assms(1,2) tw
    by (simp add: TimeClip_def UTC_def MakeDate_def msPerDay_def algebra_simps)
qed





lemma time_fields:
  assumes "0 \<le> hh" "hh < 24" "0 \<le> m" "m < 60" "0 \<le> s" "s < 60" "0 \<le> ms" "ms < 1000"
  shows "Day (MakeDate d (MakeTime hh m s ms)) = d"
    and "HourFromTime (MakeDate d (MakeTime hh m s ms)) = hh"
    and "MinFromTime (MakeDate d (MakeTime hh m s ms)) = m"
    and "SecFromTime (MakeDate d (MakeTime hh m s ms)) = s"
    and "msFromTime (MakeDate d (MakeTime hh m s ms)) = ms"
proof -
  let ?L = "MakeDate d (MakeTime hh m s ms)"
  have L: "?L = d * 86400000 + hh * 3600000 + m * 60000 + s * 1000 + ms"
    by (simp add: MakeDate_def MakeTime_def msPerDay_def msPerHour_def msPerMinute_def
        msPerSecond_def)
  have "?L div 86400000 = d"
    by (rule int_div_pos_eq [where r = "hh * 3600000 + m * 60000 + s * 1000 + ms"])
       (use assms L in auto)
  then show "Day ?L = d" by (simp add: Day_def msPerDay_def)
  have h: "?L div 3600000 = d * 24 + hh"
    by (rule int_div_pos_eq [where r = "m * 60000 + s * 1000 + ms"]) (use assms L in auto)
  have "(d * 24 + hh) mod 24 = hh"
    by (rule int_mod_pos_eq [where q = d]) (use assms in auto)
  with h show "HourFromTime ?L = hh" by (simp add: HourFromTime_def msPerHour_def)
  have mi: "?L div 60000 = (d * 1440 + hh * 60) + m"
    by (rule int_div_pos_eq [where r = "s * 1000 + ms"]) (use assms L in auto)
  have "((d * 1440 + hh * 60) + m) mod 60 = m"
    by (rule int_mod_pos_eq [where q = "d * 24 + hh"]) (use assms in auto)
  with mi show "MinFromTime ?L = m" by (simp add: MinFromTime_def msPerMinute_def)
  have se: "?L div 1000 = (d * 86400 + hh * 3600 + m * 60) + s"
    by (rule int_div_pos_eq [where r = ms]) (use assms L in auto)
  have "((d * 86400 + hh * 3600 + m * 60) + s) mod 60 = s"
    by (rule int_mod_pos_eq [where q = "d * 1440 + hh * 60 + m"]) (use assms in auto)
  with se show "SecFromTime ?L = s" by (simp add: SecFromTime_def msPerSecond_def)
  have "?L mod 1000 = ms"
    by (rule int_mod_pos_eq [where q = "d * 86400 + hh * 3600 + m * 60 + s"])
       (use assms L in auto)
  then show "msFromTime ?L = ms" by (simp add: msFromTime_def msPerSecond_def)
qed

lemma field_ranges:
  "0 \<le> HourFromTime t" "HourFromTime t < 24" "0 \<le> MinFromTime t" "MinFromTime t < 60"
  "0 \<le> SecFromTime t" "SecFromTime t < 60" "0 \<le> msFromTime t" "msFromTime t < 1000"
  by (simp_all add: HourFromTime_def MinFromTime_def SecFromTime_def msFromTime_def
      msPerSecond_def)

lemma Local_UTC: "LocalTime off (UTC off t) = t"
  by (simp add: LocalTime_def UTC_def)

text \<open>A local time on a day that lies within the range of time values is not clipped.\<close>

lemma clip_within_day:
  assumes "- maxTime \<le> UTC off (d * msPerDay)"
    and "UTC off ((d + 1) * msPerDay) \<le> maxTime"
    and "0 \<le> hh" "hh < 24" "0 \<le> m" "m < 60" "0 \<le> s" "s < 60" "0 \<le> ms" "ms < 1000"
  shows "TimeClip (UTC off (MakeDate d (MakeTime hh m s ms)))
         = Some (UTC off (MakeDate d (MakeTime hh m s ms)))"
proof -
  have "0 \<le> MakeTime hh m s ms" "MakeTime hh m s ms < msPerDay"
    using assms(3-)
    by (simp_all add: MakeTime_def msPerDay_def msPerHour_def msPerMinute_def msPerSecond_def)
  then show ?thesis
    using assms(1,2)
    by (simp add: TimeClip_def UTC_def MakeDate_def algebra_simps)
qed


lemma date_fields_of_Day:
  assumes "Day a = Day b"
  shows "YearFromTime a = YearFromTime b" and "MonthFromTime a = MonthFromTime b"
    and "DateFromTime a = DateFromTime b"
  using assms
  by (simp_all add: YearFromTime_def MonthFromTime_def DateFromTime_def InLeapYear_def
      DayWithinYear_def)



lemma MakeDay_of_fields:
  "MakeDay (YearFromTime t) (MonthFromTime t) d = Day t - DateFromTime t + d"
proof -
  have r: "0 \<le> MonthFromTime t" "MonthFromTime t < 12"
    using MonthFromTime_range [of t] by simp_all
  have m: "MonthFromTime t div 12 = 0" "MonthFromTime t mod 12 = MonthFromTime t"
    using r by simp_all
  show ?thesis
    by (simp add: MakeDay_def Let_def m DateFromTime_def DayWithinYear_def InLeapYear_def)
qed

lemma MakeDate_Day_shift:
  "MakeDate (Day t + n) (TimeWithinDay t) = t + n * msPerDay"
proof -
  have "Day t * msPerDay + TimeWithinDay t = t"
    by (simp add: Day_def TimeWithinDay_def)
  then show ?thesis
    by (simp add: MakeDate_def algebra_simps)
qed

lemma setDate_shift:
  "setDate off (DateFromTime (LocalTime off t) + n) (Some t) = TimeClip (t + n * msPerDay)"
  by (simp add: setDate_def Let_def MakeDay_of_fields MakeDate_Day_shift UTC_def
      LocalTime_def)

lemma add_days_shift:
  assumes "dt x = Some t"
  shows "add_days n x = x\<lparr>dt := TimeClip (t + n * msPerDay)\<rparr>"
  using assms by (simp add: add_days_def getDate_def setDate_shift)


text \<open>
  \<^verbatim>\<open>tz()\<close> at an instant where it is faithful, on a host that is at its offset there:
  the object holds the wall clock of UTC+9 as a local time of the host, and the offset of
  nine hours.
\<close>

lemma time_decompose:
  "MakeDate (Day t) (MakeTime (HourFromTime t) (MinFromTime t) (SecFromTime t) ms)
   = t - t mod 1000 + ms"
proof -
  have h: "(t div 3600000) mod 24 = t div 3600000 - 24 * (t div 86400000)"
    using zdiv_zmult2_eq [of 24 t 3600000] by (simp add: minus_mult_div_eq_mod [symmetric])
  have m: "(t div 60000) mod 60 = t div 60000 - 60 * (t div 3600000)"
    using zdiv_zmult2_eq [of 60 t 60000] by (simp add: minus_mult_div_eq_mod [symmetric])
  have s: "(t div 1000) mod 60 = t div 1000 - 60 * (t div 60000)"
    using zdiv_zmult2_eq [of 60 t 1000] by (simp add: minus_mult_div_eq_mod [symmetric])
  have e: "t mod 1000 = t - 1000 * (t div 1000)"
    by (simp add: minus_mult_div_eq_mod [symmetric])
  show ?thesis
    by (simp add: MakeDate_def MakeTime_def Day_def HourFromTime_def MinFromTime_def
        SecFromTime_def msPerDay_def msPerHour_def msPerMinute_def msPerSecond_def h m s e)
qed

lemma setMilliseconds_value:
  "setMilliseconds off ms (Some tv) = TimeClip (tv - tv mod 1000 + ms)"
proof -
  have "(tv + off * 60000) mod 1000 = tv mod 1000"
    using mod_mult_self2 [of tv 1000 "off * 60"] by (simp add: algebra_simps)
  then show ?thesis
    by (simp add: setMilliseconds_def Let_def time_decompose)
       (simp add: LocalTime_def UTC_def msPerMinute_def algebra_simps)
qed

lemma tz_faithful_result:
  assumes z: "getTimezoneOffset h t = - utcOffset h"
    and q: "utcOffset h mod 15 = 0" and r: "\<bar>utcOffset h\<bar> \<le> 1440"
    and f: "tz_faithful h t"
  shows "tz h \<lparr>dt = Some t, zoff = utcOffset h\<rparr>
         = \<lparr>dt = Some (t + (tokyoOffset - utcOffset h) * msPerMinute), zoff = utcOffset h,
            fixed_offset = Some tokyoOffset\<rparr>"
proof -
  define k where "k = tokyoOffset - utcOffset h"
  define ms where "ms = t mod 1000"
  define target where "target = t + k * 60000 - ms"
  have T: "tz_target h t = Some target" and w: "\<bar>t + k * 60000\<bar> \<le> maxTime"
    using f by (simp_all add: tz_faithful_def Let_def k_def ms_def target_def msPerMinute_def
        msPerSecond_def)
  have m: "0 \<le> ms" "ms < 1000" by (simp_all add: ms_def)
  have kb: "\<bar>k\<bar> \<le> 2000" using r by (simp add: k_def tokyoOffset_def)
  have "\<bar>ms - k * 60000\<bar> < 2 ^ 53" using m kb by simp
  then have "RN (of_int (ms - k * 60000)) = of_int (ms - k * 60000)" by (rule RN_of_int)
  moreover have "rat_of_int t - of_int target = of_int (ms - k * 60000)"
    by (simp add: target_def)
  ultimately have sub: "fsub (of_int t) (of_int target) = of_int (ms - k * 60000)"
    by (simp only: fsub_def)
  have d: "Math_round (fdiv (fdiv (fsub (of_int t) (of_int target)) 1000) 60) = - k"
    unfolding sub fdiv_def by (rule Math_round_minutes [OF m kb])
  have o: "dayjs_utcOffset h t = utcOffset h"
    by (rule dayjs_utcOffset_fixed [OF z q r])
  have l: "msFromTime (LocalTime (utcOffset h) t) = ms"
    using mod_mult_self2 [of t 1000 "utcOffset h * 60"]
    by (simp add: msFromTime_def LocalTime_def msPerSecond_def msPerMinute_def ms_def
        algebra_simps)
  have "t mod 1000 = t - 1000 * (t div 1000)"
    by (simp add: minus_mult_div_eq_mod [symmetric])
  then have "target = 1000 * (t div 1000 + k * 60)"
    unfolding target_def ms_def by simp
  then have "target mod 1000 = 0"
    by (simp only: mod_mult_self1_is_0)
  then have sm: "setMilliseconds (utcOffset h) ms (Some target) = Some (t + k * 60000)"
    using w by (simp add: setMilliseconds_value TimeClip_def target_def)
  have "tz h \<lparr>dt = Some t, zoff = utcOffset h\<rparr>
      = \<lparr>dt = Some (t + k * 60000), zoff = utcOffset h, fixed_offset = Some tokyoOffset\<rparr>"
    by (simp add: tz_def T Let_def d o l sm) (simp add: k_def tokyoOffset_def)
  then show ?thesis by (simp add: k_def msPerMinute_def)
qed


lemma subtractDate_addDate: "subtractDate h v n = addDate h v (- n)"
  by (simp add: subtractDate_def addDate_def subtract_days_def)



section \<open>Adding and subtracting days\<close>


lemma example_zone:
  "getTimezoneOffset example_host u = - utcOffset example_host"
  "utcOffset example_host mod 15 = 0" "\<bar>utcOffset example_host\<bar> \<le> 1440"
  by (simp_all add: example_host_def)

lemma example_tz_faithful: "\<bar>t\<bar> \<le> maxTime \<Longrightarrow> tz_faithful example_host t"
  by (simp add: tz_faithful_def example_host_def tokyoOffset_def msPerSecond_def)

lemma example_tz:
  assumes "\<bar>t\<bar> \<le> maxTime"
  shows "tz example_host (dayjs_of_date example_host (Some t))
         = \<lparr>dt = Some t, zoff = 540, fixed_offset = Some 540\<rparr>"
  using tz_faithful_result [OF example_zone example_tz_faithful [OF assms]]
  by (simp add: dayjs_of_date_def) (simp add: example_host_def tokyoOffset_def)



lemma example_toDateString:
  "toDateString example_host \<lparr>date = Some 1709255700000\<rparr> = js ''2024-03-01''"
  by (simp add: toDateString_def example_tz maxTime_def)
     (simp add: format_defs calendar_defs string_defs Let_def)


text \<open>
  Where the wall clock of Tokyo is not nine hours from UTC the round trip is not exact
  either.  On a host at UTC, going 40000 days back from the midnight of 1970-01-01 in
  Tokyo and forth again loses a second, and with it the date: at the earlier instant
  \<^verbatim>\<open>tz()\<close> finds an offset of 559 minutes for a zone at 9:18:59.
\<close>

lemma Math_round_RN:
  assumes "\<bar>q\<bar> < 2 ^ 20" and "of_int j - 1 / 2 + 1 / 1000 \<le> q"
    and "q \<le> of_int j + 1 / 2 - 1 / 1000"
  shows "Math_round (RN q) = j"
proof -
  have e: "(1::rat) / 2 ^ (54 - 20) \<le> 1 / 2000" by simp
  have "\<bar>RN q - q\<bar> \<le> 1 / 2 ^ (54 - 20)"
    by (rule RN_close [OF assms(1)]) simp_all
  with e have "RN q - q \<le> 1 / 2000" "q - RN q \<le> 1 / 2000" by linarith+
  with assms(2,3) have "of_int j \<le> RN q + 1 / 2" "RN q + 1 / 2 < of_int j + 1"
    by linarith+
  then show ?thesis
    unfolding Math_round_def by (intro floor_unique)
qed

lemma example_utc_offset: "dayjs_utcOffset example_host_utc t = 0"
  by (rule dayjs_utcOffset_fixed) (simp_all add: example_host_utc_def)

lemma RN_numerals:
  "RN (- 32400000) = - 32400000" "RN (- 32400) = - 32400" "RN (- 33539000) = - 33539000"
  "RN (- 33539) = - 33539"
  using RN_of_int [of "- 32400000"] RN_of_int [of "- 32400"] RN_of_int [of "- 33539000"]
    RN_of_int [of "- 33539"]
  by simp_all

lemma example_utc_diff:
  "Math_round (RN (- 540)) = - 540" "Math_round (RN (- (33539 / 60))) = - 559"
  using Math_round_RN [of "- 540" "- 540"] Math_round_RN [of "- 33539 / 60" "- 559"]
  by simp_all

lemma example_utc_fields:
  "utcOffset example_host_utc = 0" "getTimezoneOffset example_host_utc t = 0"
  "tz_target example_host_utc t
   = Some (t - t mod 1000 + (if t < - 2587712400000 then 33539000 else 32400000))"
  by (simp_all add: example_host_utc_def)

lemma example_utc_tz_1970:
  "tz example_host_utc \<lparr>dt = Some (- 32400000), zoff = 0\<rparr>
   = \<lparr>dt = Some 0, zoff = 0, fixed_offset = Some 540\<rparr>"
  by (simp add: tz_def example_utc_fields example_utc_offset
      Let_def fsub_def fdiv_def RN_numerals example_utc_diff setMilliseconds_value
      msFromTime_def LocalTime_def msPerSecond_def TimeClip_def maxTime_def)

lemma example_utc_tz_1860:
  "tz example_host_utc \<lparr>dt = Some (- 3456032400000), zoff = 0\<rparr>
   = \<lparr>dt = Some (- 3455998861000), zoff = 0, fixed_offset = Some 559\<rparr>"
  by (simp add: tz_def example_utc_fields example_utc_offset
      Let_def fsub_def fdiv_def RN_numerals example_utc_diff setMilliseconds_value
      msFromTime_def LocalTime_def msPerSecond_def TimeClip_def maxTime_def)

lemma example_utc_tz_1969:
  "tz example_host_utc \<lparr>dt = Some (- 32401000), zoff = 0\<rparr>
   = \<lparr>dt = Some (- 1000), zoff = 0, fixed_offset = Some 540\<rparr>"
  by (simp add: tz_def example_utc_fields example_utc_offset
      Let_def fsub_def fdiv_def RN_numerals example_utc_diff setMilliseconds_value
      msFromTime_def LocalTime_def msPerSecond_def TimeClip_def maxTime_def)

lemma addDate_subtractDate_before_1888:
  "addDate example_host_utc \<lparr>date = Some (- 32400000)\<rparr> (- 40000)
     = \<lparr>date = Some (- 3456032400000)\<rparr>
   \<and> subtractDate example_host_utc \<lparr>date = Some (- 3456032400000)\<rparr> (- 40000)
     = \<lparr>date = Some (- 32401000)\<rparr>
   \<and> toDateString example_host_utc \<lparr>date = Some (- 32400000)\<rparr> = js ''1970-01-01''
   \<and> toDateString example_host_utc \<lparr>date = Some (- 32401000)\<rparr> = js ''1969-12-31''"
proof -
  have a: "addDate example_host_utc \<lparr>date = Some (- 32400000)\<rparr> (- 40000)
      = \<lparr>date = Some (- 3456032400000)\<rparr>"
    by (simp add: addDate_def dayjs_of_date_def example_utc_fields example_utc_tz_1970
        add_days_shift new_DateTime_def)
       (simp add: toDate_def example_utc_fields TimeClip_def msPerDay_def maxTime_def
        msPerMinute_def)
  have b: "subtractDate example_host_utc \<lparr>date = Some (- 3456032400000)\<rparr> (- 40000)
      = \<lparr>date = Some (- 32401000)\<rparr>"
    by (simp add: subtractDate_addDate addDate_def dayjs_of_date_def example_utc_fields
        example_utc_tz_1860 add_days_shift new_DateTime_def)
       (simp add: toDate_def example_utc_fields TimeClip_def msPerDay_def maxTime_def
        msPerMinute_def)
  have c: "toDateString example_host_utc \<lparr>date = Some (- 32400000)\<rparr> = js ''1970-01-01''"
    by (simp add: toDateString_def dayjs_of_date_def example_utc_fields example_utc_tz_1970)
       (simp add: format_defs calendar_defs string_defs Let_def)
  have d: "toDateString example_host_utc \<lparr>date = Some (- 32401000)\<rparr> = js ''1969-12-31''"
    by (simp add: toDateString_def dayjs_of_date_def example_utc_fields example_utc_tz_1969)
       (simp add: format_defs calendar_defs string_defs Let_def)
  from a b c d show ?thesis by simp
qed

section \<open>The entry times\<close>

lemma slot_hour:
  assumes lo: "- maxTime \<le> UTC off (Day (LocalTime off t) * msPerDay)"
    and hi: "UTC off ((Day (LocalTime off t) + 1) * msPerDay) \<le> maxTime"
    and i: "0 \<le> i" "i < 24"
  shows "set_second 0 (set_minute 0 (set_hour i \<lparr>dt = Some t, zoff = off\<rparr>))
         = \<lparr>dt = Some (UTC off (MakeDate (Day (LocalTime off t))
                (MakeTime i 0 0 (msFromTime (LocalTime off t))))), zoff = off\<rparr>"
proof -
  let ?lt = "LocalTime off t"
  let ?d = "Day ?lt"
  note fr = field_ranges [of ?lt]
  let ?L1 = "MakeDate ?d (MakeTime i (MinFromTime ?lt) (SecFromTime ?lt) (msFromTime ?lt))"
  let ?L2 = "MakeDate ?d (MakeTime i 0 (SecFromTime ?lt) (msFromTime ?lt))"
  let ?L3 = "MakeDate ?d (MakeTime i 0 0 (msFromTime ?lt))"
  have s1: "setHours off i (Some t) = Some (UTC off ?L1)"
    by (simp add: setHours_def Let_def clip_within_day [OF lo hi i fr(3-8)])
  have f1: "Day ?L1 = ?d" "HourFromTime ?L1 = i" "SecFromTime ?L1 = SecFromTime ?lt"
    "msFromTime ?L1 = msFromTime ?lt"
    by (simp_all add: time_fields [OF i fr(3-8)])
  have s2: "setMinutes off 0 (Some (UTC off ?L1)) = Some (UTC off ?L2)"
    using clip_within_day [OF lo hi i _ _ fr(5-8), of 0]
    by (simp add: setMinutes_def Let_def Local_UTC f1)
  have z: "(0::int) \<le> 0" "(0::int) < 60" by simp_all
  have f2: "Day ?L2 = ?d" "HourFromTime ?L2 = i" "MinFromTime ?L2 = 0"
    "msFromTime ?L2 = msFromTime ?lt"
    by (simp_all add: time_fields [OF i z fr(5-8)])
  have s3: "setSeconds off 0 (Some (UTC off ?L2)) = Some (UTC off ?L3)"
    using clip_within_day [OF lo hi i z z fr(7-8)]
    by (simp add: setSeconds_def Let_def Local_UTC f2)
  show ?thesis
    by (simp add: set_hour_def set_minute_def set_second_def s1 s2 s3)
qed

lemma slot_half:
  assumes lo: "- maxTime \<le> UTC off (d * msPerDay)"
    and hi: "UTC off ((d + 1) * msPerDay) \<le> maxTime"
    and i: "0 \<le> i" "i < 24" and ms: "0 \<le> ms" "ms < 1000"
  shows "add_minutes 30 \<lparr>dt = Some (UTC off (MakeDate d (MakeTime i 0 0 ms))), zoff = off\<rparr>
         = \<lparr>dt = Some (UTC off (MakeDate d (MakeTime i 30 0 ms))), zoff = off\<rparr>"
proof -
  have e: "UTC off (MakeDate d (MakeTime i 0 0 ms)) + 30 * msPerMinute
           = UTC off (MakeDate d (MakeTime i 30 0 ms))"
    by (simp add: UTC_def MakeDate_def MakeTime_def)
  have "TimeClip (UTC off (MakeDate d (MakeTime i 30 0 ms)))
        = Some (UTC off (MakeDate d (MakeTime i 30 0 ms)))"
    by (rule clip_within_day [OF lo hi i _ _ _ _ ms]) simp_all
  then show ?thesis
    by (simp add: add_minutes_def e)
qed

lemma format_slot:
  assumes i: "0 \<le> i" "i < 24" and m: "0 \<le> m" "m < 60" and ms: "0 \<le> ms" "ms < 1000"
  shows "format \<lparr>dt = Some (UTC off (MakeDate (Day (LocalTime off t)) (MakeTime i m 0 ms))),
                   zoff = off\<rparr> fmt_date_hms
         = format \<lparr>dt = Some t, zoff = off\<rparr> fmt_date
           @ js '' '' @ pad2 i @ js '':'' @ pad2 m @ js '':'' @ pad2 0"
proof -
  let ?L = "MakeDate (Day (LocalTime off t)) (MakeTime i m 0 ms)"
  have z: "(0::int) \<le> 0" "(0::int) < 60" by simp_all
  note tf = time_fields [OF i m z ms, of "Day (LocalTime off t)"]
  note df = date_fields_of_Day [OF tf(1)]
  show ?thesis
    by (simp add: format_def fmt_date_hms_def fmt_date_hm_def fmt_date_def render_def
        Local_UTC tf df)
qed



lemma entry_times_loop_unfold:
  "entry_times_loop h d i acc
   = acc @ concat (map (\<lambda>j.
       [format (set_second 0 (set_minute 0 (set_hour (int j)
           (dayjs_of_date h (date (new_DateTime h (Str d))))))) fmt_date_hms,
        format (add_minutes 30 (set_second 0 (set_minute 0 (set_hour (int j)
           (dayjs_of_date h (date (new_DateTime h (Str d)))))))) fmt_date_hms]) [i..<20])"
proof (induction h d i acc rule: entry_times_loop.induct)
  case (1 h d i timesArray)
  show ?case
  proof (cases "i < 20")
    case True
    have u: "[i..<20] = i # [i + 1..<20]"
      using True by (simp add: upt_conv_Cons)
    show ?thesis
      using True "1" [OF True refl refl refl refl]
      by (subst entry_times_loop.simps) (simp add: Let_def u)
  next
    case False
    then show ?thesis
      by (subst entry_times_loop.simps) simp
  qed
qed

lemma upt_8_20: "[8..<20] = [8, 9, 10, 11, 12, 13, 14, 15, 16, 17, 18, 19::nat]"
  by (simp add: upt_rec)

lemma upt_0_24:
  "[0..<24] = [0, 1, 2, 3, 4, 5, 6, 7, 8, 9, 10, 11, 12, 13, 14, 15, 16, 17, 18, 19, 20,
     21, 22, 23::nat]"
  by (simp add: upt_rec)

lemma pad2_0: "pad2 0 = js ''00''"
  by (simp add: pad2_def padStart_def string_of_int_def digits.simps digit_char_def
      js_simps chr_zero_def)

lemma pad2_30: "pad2 30 = js ''30''"
  by (simp add: pad2_def padStart_def string_of_int_def digits.simps digit_char_def
      js_simps chr_zero_def)


text \<open>
  Claim C4, as amended.  When the rewritten string parses to the instant \<open>t\<close> and the
  calendar day of \<open>t\<close> in the host's zone is representable, the generator returns 24
  strings: for each hour from 8 to 19, in this order, the date of \<open>t\<close> in the host's zone
  followed by the hour at \<^verbatim>\<open>:00:00\<close> and then at \<^verbatim>\<open>:30:00\<close>.  They are the
  renderings of 24 instants thirty minutes apart, in ascending order.
\<close>

theorem entry_times_slots:
  assumes p: "new_Date_string h (formatSafariSupport d) = Some t"
    and r: "day_representable (utcOffset h) (Day (LocalTime (utcOffset h) t))"
  shows "entry_times h v d
         = concat (map (\<lambda>i.
             [format \<lparr>dt = Some t, zoff = utcOffset h\<rparr> fmt_date
                @ js '' '' @ pad2 (int i) @ js '':00:00'',
              format \<lparr>dt = Some t, zoff = utcOffset h\<rparr> fmt_date
                @ js '' '' @ pad2 (int i) @ js '':30:00'']) [8..<20])
         \<and> length (entry_times h v d) = 24
         \<and> entry_times h v d
           = map (\<lambda>k. format \<lparr>dt = Some (UTC (utcOffset h)
                     (MakeDate (Day (LocalTime (utcOffset h) t))
                        (MakeTime 8 0 0 (msFromTime (LocalTime (utcOffset h) t))))
                     + int k * (30 * msPerMinute)), zoff = utcOffset h\<rparr> fmt_date_hms)
               [0..<24]"
proof -
  let ?off = "utcOffset h"
  let ?lt = "LocalTime ?off t"
  from r have lo: "- maxTime \<le> UTC ?off (Day ?lt * msPerDay)"
    and hi: "UTC ?off ((Day ?lt + 1) * msPerDay) \<le> maxTime"
    by (simp_all add: day_representable_def)
  let ?ms = "msFromTime ?lt"
  let ?D = "format \<lparr>dt = Some t, zoff = ?off\<rparr> fmt_date"
  let ?x = "\<lambda>i m. \<lparr>dt = Some (UTC ?off (MakeDate (Day ?lt) (MakeTime i m 0 ?ms))),
             zoff = ?off\<rparr>"
  note ms = field_ranges(7,8) [of ?lt]
  have c: "dayjs_of_date h (date (new_DateTime h (Str d))) = \<lparr>dt = Some t, zoff = ?off\<rparr>"
    using p by (simp add: new_DateTime_def Let_def isDate_def dayjs_of_date_def)
  have hour: "set_second 0 (set_minute 0 (set_hour (int j) \<lparr>dt = Some t, zoff = ?off\<rparr>))
      = ?x (int j) 0" if "j < 20" for j
    using that by (intro slot_hour [OF lo hi]) simp_all
  have half: "add_minutes 30 (?x (int j) 0) = ?x (int j) 30" if "j < 20" for j
    using that by (intro slot_half [OF lo hi _ _ ms]) simp_all
  have f0: "format (?x (int j) 0) fmt_date_hms = ?D @ js '' '' @ pad2 (int j) @ js '':00:00''"
    if "j < 20" for j
    using that format_slot [OF _ _ _ _ ms, of "int j" 0 ?off t]
    by (simp add: pad2_0 js_simps)
  have f30: "format (?x (int j) 30) fmt_date_hms = ?D @ js '' '' @ pad2 (int j) @ js '':30:00''"
    if "j < 20" for j
    using that format_slot [OF _ _ _ _ ms, of "int j" 30 ?off t]
    by (simp add: pad2_0 pad2_30 js_simps)
  have loop: "entry_times h v d
      = concat (map (\<lambda>j. [format (?x (int j) 0) fmt_date_hms,
                            format (?x (int j) 30) fmt_date_hms]) [8..<20])"
  proof -
    have "j \<in> set [8..<20] \<Longrightarrow> j < 20" for j by (simp del: upt_rec_numeral)
    then show ?thesis
      unfolding entry_times_def entry_times_loop_unfold c append_Nil
      by (intro arg_cong [where f = concat] map_cong refl) (simp add: hour half)
  qed
  have a: "entry_times h v d
      = concat (map (\<lambda>i. [?D @ js '' '' @ pad2 (int i) @ js '':00:00'',
                            ?D @ js '' '' @ pad2 (int i) @ js '':30:00'']) [8..<20])"
  proof -
    have "j \<in> set [8..<20] \<Longrightarrow> j < 20" for j by (simp del: upt_rec_numeral)
    then show ?thesis
      unfolding loop
      by (intro arg_cong [where f = concat] map_cong refl) (simp add: f0 f30)
  qed
  have b: "length (entry_times h v d) = 24"
    unfolding loop by (simp add: upt_8_20)
  have e: "entry_times h v d
      = map (\<lambda>k. format \<lparr>dt = Some (UTC ?off (MakeDate (Day ?lt) (MakeTime 8 0 0 ?ms))
                     + int k * (30 * msPerMinute)), zoff = ?off\<rparr> fmt_date_hms) [0..<24]"
    unfolding loop
    by (simp add: upt_8_20 upt_0_24 UTC_def MakeDate_def MakeTime_def msPerHour_def
        msPerMinute_def algebra_simps)
  from a b e show ?thesis by blast
qed

lemma normalize_entry: "formatSafariSupport (js ''2024-03-01 10:15:00'') = js ''2024/03/01 10:15:00''"
  by (simp add: formatSafariSupport_def js_simps chr_minus_def chr_slash_def)

lemma example_Date_entry:
  "new_Date_string example_host (js ''2024/03/01 10:15:00'') = Some 1709255700000"
  by (simp add: new_Date_string_def example_host_def example_table_def js_simps clip_def
      TimeClip_def maxTime_def)

lemma example_format_date:
  "format \<lparr>dt = Some 1709255700000, zoff = 540\<rparr> fmt_date = js ''2024-03-01''"
  by (simp add: format_defs calendar_defs string_defs Let_def)

theorem entry_times_slots_witness:
  "new_Date_string example_host (formatSafariSupport (js ''2024-03-01 10:15:00''))
     = Some 1709255700000
   \<and> day_representable (utcOffset example_host)
        (Day (LocalTime (utcOffset example_host) 1709255700000))
   \<and> entry_times example_host \<lparr>date = None\<rparr> (js ''2024-03-01 10:15:00'')
       = map js
          [''2024-03-01 08:00:00'', ''2024-03-01 08:30:00'', ''2024-03-01 09:00:00'',
           ''2024-03-01 09:30:00'', ''2024-03-01 10:00:00'', ''2024-03-01 10:30:00'',
           ''2024-03-01 11:00:00'', ''2024-03-01 11:30:00'', ''2024-03-01 12:00:00'',
           ''2024-03-01 12:30:00'', ''2024-03-01 13:00:00'', ''2024-03-01 13:30:00'',
           ''2024-03-01 14:00:00'', ''2024-03-01 14:30:00'', ''2024-03-01 15:00:00'',
           ''2024-03-01 15:30:00'', ''2024-03-01 16:00:00'', ''2024-03-01 16:30:00'',
           ''2024-03-01 17:00:00'', ''2024-03-01 17:30:00'', ''2024-03-01 18:00:00'',
           ''2024-03-01 18:30:00'', ''2024-03-01 19:00:00'', ''2024-03-01 19:30:00'']"
proof -
  have h: "utcOffset example_host = 540" by (simp add: example_host_def)
  have p: "new_Date_string example_host (formatSafariSupport (js ''2024-03-01 10:15:00''))
      = Some 1709255700000"
    by (simp only: normalize_entry example_Date_entry)
  have r: "day_representable (utcOffset example_host)
      (Day (LocalTime (utcOffset example_host) 1709255700000))"
    by (simp add: h day_representable_def calendar_defs)
  from entry_times_slots [OF p r, of "\<lparr>date = None\<rparr>"]
  have "entry_times example_host \<lparr>date = None\<rparr> (js ''2024-03-01 10:15:00'')
      = concat (map (\<lambda>i.
          [js ''2024-03-01'' @ js '' '' @ pad2 (int i) @ js '':00:00'',
           js ''2024-03-01'' @ js '' '' @ pad2 (int i) @ js '':30:00'']) [8..<20])"
    by (simp only: h example_format_date)
  also have "\<dots> = map js
          [''2024-03-01 08:00:00'', ''2024-03-01 08:30:00'', ''2024-03-01 09:00:00'',
           ''2024-03-01 09:30:00'', ''2024-03-01 10:00:00'', ''2024-03-01 10:30:00'',
           ''2024-03-01 11:00:00'', ''2024-03-01 11:30:00'', ''2024-03-01 12:00:00'',
           ''2024-03-01 12:30:00'', ''2024-03-01 13:00:00'', ''2024-03-01 13:30:00'',
           ''2024-03-01 14:00:00'', ''2024-03-01 14:30:00'', ''2024-03-01 15:00:00'',
           ''2024-03-01 15:30:00'', ''2024-03-01 16:00:00'', ''2024-03-01 16:30:00'',
           ''2024-03-01 17:00:00'', ''2024-03-01 17:30:00'', ''2024-03-01 18:00:00'',
           ''2024-03-01 18:30:00'', ''2024-03-01 19:00:00'', ''2024-03-01 19:30:00'']"
    by (simp add: upt_8_20 string_defs)
  finally show ?thesis using p r by blast
qed

lemma normalize_max:
  "formatSafariSupport (js ''Sat, 13 Sep 275760 00:00:00 GMT'')
   = js ''Sat, 13 Sep 275760 00:00:00 GMT''"
  by (simp add: formatSafariSupport_def js_simps chr_minus_def chr_slash_def)

lemma example_Date_max:
  "new_Date_string example_host (js ''Sat, 13 Sep 275760 00:00:00 GMT'')
   = Some 8640000000000000"
  by (simp add: new_Date_string_def example_host_def example_table_def js_simps clip_def
      TimeClip_def maxTime_def)

lemma example_hour_9: "setHours 540 9 (Some 8640000000000000) = Some 8640000000000000"
  by (simp add: setHours_def Let_def) (simp add: calendar_defs)

lemma example_minute_0: "setMinutes 540 0 (Some 8640000000000000) = Some 8640000000000000"
  by (simp add: setMinutes_def Let_def) (simp add: calendar_defs)

lemma example_second_0: "setSeconds 540 0 (Some 8640000000000000) = Some 8640000000000000"
  by (simp add: setSeconds_def Let_def) (simp add: calendar_defs)

text \<open>
  Claim C4 as stated fails on the last day of the range of time values.  The string is
  the one \<^verbatim>\<open>toUTCString\<close> gives for the greatest time value, which every engine parses;
  in Tokyo that instant is 09:00 of its day, and every time of the day after it is not a
  date.  The third entry is the last that is a timestamp.
\<close>

theorem entry_times_out_of_range:
  "new_Date_string example_host
     (formatSafariSupport (js ''Sat, 13 Sep 275760 00:00:00 GMT'')) = Some 8640000000000000
   \<and> length (entry_times example_host \<lparr>date = None\<rparr>
        (js ''Sat, 13 Sep 275760 00:00:00 GMT'')) = 24
   \<and> entry_times example_host \<lparr>date = None\<rparr> (js ''Sat, 13 Sep 275760 00:00:00 GMT'') ! 2
       = js ''275760-09-13 09:00:00''
   \<and> entry_times example_host \<lparr>date = None\<rparr> (js ''Sat, 13 Sep 275760 00:00:00 GMT'') ! 3
       = js ''Invalid Date''"
proof -
  let ?d = "js ''Sat, 13 Sep 275760 00:00:00 GMT''"
  let ?x = "\<lparr>dt = Some 8640000000000000, zoff = 540\<rparr>"
  have p: "new_Date_string example_host (formatSafariSupport ?d) = Some 8640000000000000"
    by (simp only: normalize_max example_Date_max)
  have c: "dayjs_of_date example_host (date (new_DateTime example_host (Str ?d))) = ?x"
    using p by (simp add: new_DateTime_def Let_def isDate_def dayjs_of_date_def example_host_def)
  have n: "set_second 0 (set_minute 0 (set_hour 9 ?x)) = ?x"
    by (simp add: set_hour_def set_minute_def set_second_def example_hour_9 example_minute_0
        example_second_0)
  have f: "format ?x fmt_date_hms = js ''275760-09-13 09:00:00''"
    by (simp add: format_defs calendar_defs string_defs Let_def)
  have a: "format (add_minutes 30 ?x) fmt_date_hms = js ''Invalid Date''"
    by (simp add: add_minutes_def format_def TimeClip_def msPerMinute_def maxTime_def)
  have l: "length (entry_times example_host \<lparr>date = None\<rparr> ?d) = 24"
    by (simp add: entry_times_def entry_times_loop_unfold length_concat upt_8_20)
  have i2: "entry_times example_host \<lparr>date = None\<rparr> ?d ! 2 = js ''275760-09-13 09:00:00''"
    unfolding entry_times_def entry_times_loop_unfold c
    by (simp add: upt_8_20 n f)
  have i3: "entry_times example_host \<lparr>date = None\<rparr> ?d ! 3 = js ''Invalid Date''"
    unfolding entry_times_def entry_times_loop_unfold c
    by (simp add: upt_8_20 n a)
  from p l i2 i3 show ?thesis by blast
qed

section \<open>Instants, not calendar days\<close>

lemma normalize_1015_01:
  "formatSafariSupport (js ''2024-03-01 10:15:01'') = js ''2024/03/01 10:15:01''"
  by (simp add: formatSafariSupport_def js_simps chr_minus_def chr_slash_def)

lemma example_Date_1015_01:
  "new_Date_string example_host (js ''2024/03/01 10:15:01'') = Some 1709255701000"
  by (simp add: new_Date_string_def example_host_def example_table_def js_simps clip_def
      TimeClip_def maxTime_def)

lemma example_toDateString_01:
  "toDateString example_host \<lparr>date = Some 1709255701000\<rparr> = js ''2024-03-01''"
  by (simp add: toDateString_def example_tz maxTime_def)
     (simp add: format_defs calendar_defs string_defs Let_def)

text \<open>Two times of the first of March 2024, one second apart, are not the same.\<close>

theorem isSameDate_full_instant_witness:
  "toDateString example_host \<lparr>date = Some 1709255700000\<rparr> = js ''2024-03-01''
   \<and> toDateString example_host (new_DateTime example_host (Str (js ''2024-03-01 10:15:01'')))
       = js ''2024-03-01''
   \<and> \<not> isSameDate example_host \<lparr>date = Some 1709255700000\<rparr> (Str (js ''2024-03-01 10:15:01''))
   \<and> isSameDate example_host \<lparr>date = Some 1709255700000\<rparr> (Str (js ''2024-03-01 10:15:00''))"
proof -
  let ?v = "\<lparr>date = Some 1709255700000\<rparr>"
  have a: "new_DateTime example_host (Str (js ''2024-03-01 10:15:01''))
      = \<lparr>date = Some 1709255701000\<rparr>"
    by (simp add: new_DateTime_def Let_def normalize_1015_01 isDate_def example_Date_1015_01)
  have b: "new_DateTime example_host (Str (js ''2024-03-01 10:15:00''))
      = \<lparr>date = Some 1709255700000\<rparr>"
    by (simp add: new_DateTime_def Let_def normalize_entry isDate_def example_Date_entry)
  have n: "\<not> isSameDate example_host ?v (Str (js ''2024-03-01 10:15:01''))"
    using isSameDate_full_instant [of example_host ?v "Str (js ''2024-03-01 10:15:01'')"]
    by (simp add: a)
  have y: "isSameDate example_host ?v (Str (js ''2024-03-01 10:15:00''))"
    using isSameDate_full_instant [of example_host ?v "Str (js ''2024-03-01 10:15:00'')"]
    by (simp add: b)
  from n y example_toDateString example_toDateString_01 a show ?thesis by simp
qed

section \<open>No operation raises\<close>

lemma split_on_not_Nil: "split_on sep s \<noteq> []"
  by (induction s) (auto split: list.splits)

lemma split_on_sep_length: "2 \<le> length (split_on sep (a @ sep # b))"
proof (induction a)
  case Nil
  have "split_on sep b \<noteq> []" by (rule split_on_not_Nil)
  then show ?case by (cases "split_on sep b") simp_all
next
  case (Cons c a)
  then show ?case by (auto split: list.splits)
qed

lemma toLocaleString_ja_space: "\<exists>a b. toLocaleString_ja off d = a @ chr_space # b"
proof (cases d)
  case None
  have "js ''Invalid Date'' = js ''Invalid'' @ chr_space # js ''Date''"
    by (simp add: js_simps chr_space_def)
  with None show ?thesis
    unfolding toLocaleString_ja_def by (simp only: option.case) blast
next
  case (Some tv)
  let ?t = "LocalTime off tv"
  have "toLocaleString_ja off d
      = (string_of_int (YearFromTime ?t) @ [chr_slash] @ string_of_int (MonthFromTime ?t + 1)
          @ [chr_slash] @ string_of_int (DateFromTime ?t))
        @ chr_space # (string_of_int (HourFromTime ?t) @ [chr_colon] @ pad2 (MinFromTime ?t)
          @ [chr_colon] @ pad2 (SecFromTime ?t))"
    using Some by (simp add: toLocaleString_ja_def Let_def)
  then show ?thesis by blast
qed

lemma toOnlyTime_returns: "\<exists>r. toOnlyTime h v = Inr r"
proof -
  obtain a b where s: "toLocaleString_ja (utcOffset h) (date v) = a @ chr_space # b"
    using toLocaleString_ja_space by blast
  have "2 \<le> length (split_on chr_space (a @ chr_space # b))"
    by (rule split_on_sep_length)
  then obtain t where t: "nth_opt (split_on chr_space (a @ chr_space # b)) 1 = Some t"
    by (simp add: nth_opt_def)
  show ?thesis
  proof (cases "re_hms t")
    case False
    with s t show ?thesis by (simp add: toOnlyTime_def Let_def)
  next
    case True
    have "split_on chr_colon t \<noteq> []" by (rule split_on_not_Nil)
    with True s t show ?thesis
      by (cases "split_on chr_colon t" rule: list.exhaust [case_names Nil Cons])
         (auto simp add: toOnlyTime_def Let_def split: list.splits)
  qed
qed

text \<open>
  Claim C9.  Every operation returns a result, on every value, the one holding the
  Invalid Date included, and so on every value the constructor builds: the two places of
  \<open>toOnlyTime\<close> that could raise are never reached, and the week day that cannot be
  read gives the long dash.
\<close>

theorem no_operation_raises:
  "(\<exists>r. call h v op = Inr r) \<and> (\<exists>r. call h (new_DateTime h inp) op = Inr r)"
proof -
  have "\<exists>r. call h w op = Inr r" for w
  proof (cases op)
    case ToOnlyTime
    obtain r where "toOnlyTime h w = Inr r" using toOnlyTime_returns by blast
    with ToOnlyTime show ?thesis by (simp add: call_def)
  qed (simp_all add: call_def)
  then show ?thesis by blast
qed

lemma example_locale:
  "toLocaleString_ja 540 (Some 1709251530000) = js ''2024/3/1 9:05:30''"
  by (simp add: toLocaleString_ja_def Let_def) (simp add: calendar_defs string_defs Let_def)

lemma example_split: "split_on chr_space (js ''2024/3/1 9:05:30'') = [js ''2024/3/1'', js ''9:05:30'']"
  by (simp add: js_simps chr_space_def)

lemma example_split_colon: "split_on chr_colon (js ''9:05:30'') = [js ''9'', js ''05'', js ''30'']"
  by (simp add: js_simps chr_colon_def)

lemma example_toOnlyTime:
  "toOnlyTime example_host \<lparr>date = Some 1709251530000\<rparr> = Inr (js ''09:05'')"
proof -
  have h: "utcOffset example_host = 540" by (simp add: example_host_def)
  have m: "re_hms (js ''9:05:30'')"
    by (simp add: re_hms_def example_split_colon digits_between_def)
       (simp add: js_simps is_digit_def)
  show ?thesis
    by (simp add: toOnlyTime_def h example_locale example_split nth_opt_def m
        example_split_colon)
       (simp add: js_simps chr_zero_def chr_colon_def)
qed

lemma example_toOnlyTime_invalid:
  "toOnlyTime example_host \<lparr>date = None\<rparr> = Inr (js ''Date'')"
proof -
  have s: "split_on chr_space (js ''Invalid Date'') = [js ''Invalid'', js ''Date'']"
    by (simp add: js_simps chr_space_def)
  have c: "split_on chr_colon (js ''Date'') = [js ''Date'']"
    by (simp add: js_simps chr_colon_def)
  have m: "\<not> re_hms (js ''Date'')"
    by (simp add: re_hms_def c)
  show ?thesis
    by (simp add: toOnlyTime_def toLocaleString_ja_def s nth_opt_def m)
qed

lemma example_week_invalid: "toJpStringWithWeek example_host \<lparr>date = None\<rparr> = [chr_chouon]"
  by (simp add: toJpStringWithWeek_def getDay_def)

lemma example_week_friday:
  "toJpStringWithWeek example_host \<lparr>date = Some 1709251530000\<rparr>
   = js ''2024'' @ [chr_nen] @ js ''3'' @ [chr_gatsu] @ js ''1'' @ [chr_nichi]
     @ [chr_lparen, 0x91D1, chr_rparen]"
proof -
  have h: "utcOffset example_host = 540" by (simp add: example_host_def)
  have d: "getDay 540 (Some 1709251530000) = Some 5"
    by (simp add: getDay_def calendar_defs)
  have j: "toJpString example_host \<lparr>date = Some 1709251530000\<rparr>
      = js ''2024'' @ [chr_nen] @ js ''3'' @ [chr_gatsu] @ js ''1'' @ [chr_nichi]"
    by (simp add: toJpString_def h getFullYear_def getMonth_def getDate_def)
       (simp add: calendar_defs string_defs Let_def)
  show ?thesis
    by (simp add: toJpStringWithWeek_def h d nth_opt_def week_def j)
qed

theorem no_operation_raises_witness:
  "toOnlyTime example_host \<lparr>date = Some 1709251530000\<rparr> = Inr (js ''09:05'')
   \<and> toOnlyTime example_host \<lparr>date = None\<rparr> = Inr (js ''Date'')
   \<and> toJpStringWithWeek example_host \<lparr>date = None\<rparr> = [chr_chouon]
   \<and> call example_host \<lparr>date = None\<rparr> ToOnlyTime = Inr (OutString (js ''Date''))"
proof -
  from no_operation_raises [of example_host "\<lparr>date = None\<rparr>" ToOnlyTime]
  obtain r where "call example_host \<lparr>date = None\<rparr> ToOnlyTime = Inr r"
    by blast
  moreover have "call example_host \<lparr>date = None\<rparr> ToOnlyTime = Inr (OutString (js ''Date''))"
    by (simp add: call_def example_toOnlyTime_invalid)
  ultimately show ?thesis
    using example_toOnlyTime example_toOnlyTime_invalid example_week_invalid by blast
qed

section \<open>The first day of a later year\<close>

lemma pad2_1: "pad2 1 = js ''01''"
  by (simp add: pad2_def padStart_def string_of_int_def digits.simps digit_char_def
      js_simps chr_zero_def)

lemma add_years_year:
  assumes lo: "- maxTime \<le> UTC off (DayFromYear (YearFromTime (LocalTime off now)) * msPerDay)"
    and hi: "UTC off (DayFromYear (YearFromTime (LocalTime off now) + 1) * msPerDay) \<le> maxTime"
    and lo': "- maxTime \<le> UTC off (DayFromYear (YearFromTime (LocalTime off now) + n) * msPerDay)"
    and hi': "UTC off (DayFromYear (YearFromTime (LocalTime off now) + n + 1) * msPerDay)
               \<le> maxTime"
  shows "getFullYear off (dt (add_years n \<lparr>dt = Some now, zoff = off\<rparr>))
         = Some (YearFromTime (LocalTime off now) + n)"
proof -
  let ?lt = "LocalTime off now"
  let ?y = "YearFromTime ?lt"
  let ?Y = "?y + n"
  let ?M = "MonthFromTime ?lt"
  let ?dd = "DateFromTime ?lt"
  let ?tw = "TimeWithinDay ?lt"
  let ?L1 = "\<lambda>yr. MakeDate (DayFromYear yr + monthStart (isLeap yr) ?M) ?tw"
  let ?L = "\<lambda>yr d. MakeDate (DayFromYear yr + monthStart (isLeap yr) ?M + d - 1) ?tw"
  note m = MonthFromTime_range [of ?lt]
  note tw = TimeWithinDay_range [of ?lt]
  note mb = monthStart_bounds(2) [OF m]
  have one: "(1::int) \<le> 1" "1 \<le> monthStart l (?M + 1) - monthStart l ?M" for l
    using mb [of l] by simp_all
  have c1: "TimeClip (UTC off (?L1 ?y)) = Some (UTC off (?L1 ?y))"
    using clip_in_year [OF lo hi m one tw] by simp
  have s1: "setDate off 1 (Some now) = Some (UTC off (?L1 ?y))"
    by (simp add: setDate_def Let_def MakeDay_month [OF m] c1)
  have f1: "MonthFromTime (?L1 ?y) = ?M" "DateFromTime (?L1 ?y) = 1"
    "TimeWithinDay (?L1 ?y) = ?tw"
    using civil_fields [OF m one tw, of ?y] MakeDate_Day(2) [OF tw] by simp_all
  have c2: "TimeClip (UTC off (?L1 ?Y)) = Some (UTC off (?L1 ?Y))"
    using clip_in_year [OF lo' _ m one tw] hi' by (simp add: add.assoc)
  have s2: "setFullYear off ?Y (Some (UTC off (?L1 ?y))) = Some (UTC off (?L1 ?Y))"
    by (simp add: setFullYear_def Let_def Local_UTC f1 MakeDay_month [OF m] c2)
  have f2: "YearFromTime (?L1 ?Y) = ?Y" "MonthFromTime (?L1 ?Y) = ?M"
    "TimeWithinDay (?L1 ?Y) = ?tw"
    using civil_fields [OF m one tw, of ?Y] MakeDate_Day(2) [OF tw] by simp_all
  let ?e = "min ?dd (monthStart (isLeap ?Y) (?M + 1) - monthStart (isLeap ?Y) ?M)"
  have dim: "daysInMonth (?L1 ?Y) = monthStart (isLeap ?Y) (?M + 1) - monthStart (isLeap ?Y) ?M"
    by (simp add: daysInMonth_def InLeapYear_def f2)
  have e: "1 \<le> ?e" "?e \<le> monthStart (isLeap ?Y) (?M + 1) - monthStart (isLeap ?Y) ?M"
    using DateFromTime_range(1) [of ?lt] one(2) [of "isLeap ?Y"] by simp_all
  have c3: "TimeClip (UTC off (?L ?Y ?e)) = Some (UTC off (?L ?Y ?e))"
    using clip_in_year [OF lo' _ m e tw] hi' by (simp add: add.assoc)
  have s3: "setDate off ?e (Some (UTC off (?L1 ?Y))) = Some (UTC off (?L ?Y ?e))"
    by (simp only: setDate_def option.case Let_def Local_UTC f2 MakeDay_month [OF m] c3)
  note f3 = civil_fields(1) [OF m e tw]
  have "add_years n \<lparr>dt = Some now, zoff = off\<rparr>
        = \<lparr>dt = setDate off ?e (Some (UTC off (?L1 ?Y))), zoff = off\<rparr>"
    by (simp add: add_years_def Let_def s1 s2 dim Local_UTC)
  then have "dt (add_years n \<lparr>dt = Some now, zoff = off\<rparr>) = Some (UTC off (?L ?Y ?e))"
    by (simp only: s3 dayjs.select_convs)
  then show ?thesis
    by (simp only: getFullYear_def option.map Local_UTC f3)
qed

lemma startOf_year_format:
  assumes lo: "- maxTime \<le> UTC off (DayFromYear y * msPerDay)"
    and hi: "UTC off (DayFromYear (y + 1) * msPerDay) \<le> maxTime"
    and y: "getFullYear off (dt x) = Some y" and q: "\<not> (0 \<le> y \<and> y \<le> 99)"
    and z: "zoff x = off"
  shows "format (startOf_year x) fmt_date
         = padStart 4 chr_zero (string_of_int y) @ js ''-01-01''"
proof -
  have m: "(0::int) \<le> 0" "(0::int) \<le> 11" by simp_all
  have one: "(1::int) \<le> 1" "1 \<le> monthStart (isLeap y) (0 + 1) - monthStart (isLeap y) 0"
    by (simp_all add: monthStart_def)
  have tw: "(0::int) \<le> 0" "0 < msPerDay" by (simp_all add: msPerDay_def)
  let ?L = "MakeDate (DayFromYear y) 0"
  have m0: "monthStart l 0 = 0" for l by (simp add: monthStart_def)
  have c: "TimeClip (UTC off ?L) = Some (UTC off ?L)"
    using clip_in_year [OF lo hi m one tw] by (simp add: m0)
  have yr: "(if 0 \<le> y \<and> y \<le> 99 then 1900 + y else y) = y"
    using q by simp
  have s: "new_Date_ymd off (Some y) 0 1 = Some (UTC off ?L)"
    by (simp add: new_Date_ymd_def Let_def yr MakeDay_month [OF m] MakeTime_def m0 c)
  have f: "YearFromTime ?L = y" "MonthFromTime ?L = 0" "DateFromTime ?L = 1"
    using civil_fields [OF m one tw] by (simp_all add: m0)
  show ?thesis
    by (simp add: startOf_year_def z y s format_def fmt_date_def render_def Local_UTC f
        pad2_1 js_simps)
qed


text \<open>
  Claim C5, as amended.  Let \<open>y\<close> be the year of the clock in the host's zone.  When the
  years \<open>y\<close> and \<open>y + n\<close> are representable and \<open>y + n\<close> is not one of 0 to 99, the
  result is the first of January of the year \<open>y + n\<close>, the year padded with zeros to four
  characters; whatever the value, it is the same for every value.
\<close>

theorem yearsLaterNewYearsDate_value:
  assumes c: "year_representable (utcOffset h) (YearFromTime (LocalTime (utcOffset h) (clock h)))"
    and t: "year_representable (utcOffset h)
              (YearFromTime (LocalTime (utcOffset h) (clock h)) + n)"
    and q: "\<not> (0 \<le> YearFromTime (LocalTime (utcOffset h) (clock h)) + n
              \<and> YearFromTime (LocalTime (utcOffset h) (clock h)) + n \<le> 99)"
  shows "yearsLaterNewYearsDate h v n
         = padStart 4 chr_zero
             (string_of_int (YearFromTime (LocalTime (utcOffset h) (clock h)) + n))
           @ js ''-01-01''
         \<and> yearsLaterNewYearsDate h v n = yearsLaterNewYearsDate h v' n"
proof -
  let ?off = "utcOffset h"
  let ?y = "YearFromTime (LocalTime ?off (clock h))"
  from c have lo: "- maxTime \<le> UTC ?off (DayFromYear ?y * msPerDay)"
    and hi: "UTC ?off (DayFromYear (?y + 1) * msPerDay) \<le> maxTime"
    by (simp_all add: year_representable_def)
  from t have lo': "- maxTime \<le> UTC ?off (DayFromYear (?y + n) * msPerDay)"
    and hi': "UTC ?off (DayFromYear (?y + n + 1) * msPerDay) \<le> maxTime"
    by (simp_all add: year_representable_def)
  have y: "getFullYear ?off (dt (add_years n \<lparr>dt = Some (clock h), zoff = ?off\<rparr>))
      = Some (?y + n)"
    by (rule add_years_year [OF lo hi lo' hi'])
  have z: "zoff (add_years n \<lparr>dt = Some (clock h), zoff = ?off\<rparr>) = ?off"
    by (simp add: add_years_def Let_def split: option.splits)
  have "yearsLaterNewYearsDate h v n
      = padStart 4 chr_zero (string_of_int (?y + n)) @ js ''-01-01''"
    unfolding yearsLaterNewYearsDate_def dayjs_now_def
    by (rule startOf_year_format [OF lo' hi' y q z])
  moreover have "yearsLaterNewYearsDate h v n = yearsLaterNewYearsDate h v' n"
    by (simp add: yearsLaterNewYearsDate_def)
  ultimately show ?thesis by blast
qed

lemma example_year: "YearFromTime (LocalTime (utcOffset example_host) (clock example_host)) = 2024"
  by (simp add: example_host_def calendar_defs Let_def)

theorem yearsLaterNewYearsDate_value_witness:
  "year_representable (utcOffset example_host) 2024
   \<and> year_representable (utcOffset example_host) (2024 + 2)
   \<and> \<not> (0 \<le> (2024::int) + 2 \<and> (2024::int) + 2 \<le> 99)
   \<and> yearsLaterNewYearsDate example_host \<lparr>date = None\<rparr> 2 = js ''2026-01-01''"
proof -
  have c: "year_representable (utcOffset example_host)
      (YearFromTime (LocalTime (utcOffset example_host) (clock example_host)))"
    unfolding example_year
    by (simp add: year_representable_def example_host_def calendar_defs)
  have t: "year_representable (utcOffset example_host)
      (YearFromTime (LocalTime (utcOffset example_host) (clock example_host)) + 2)"
    unfolding example_year
    by (simp add: year_representable_def example_host_def calendar_defs)
  have q: "\<not> (0 \<le> YearFromTime (LocalTime (utcOffset example_host) (clock example_host)) + 2
      \<and> YearFromTime (LocalTime (utcOffset example_host) (clock example_host)) + 2 \<le> 99)"
    unfolding example_year by simp
  have s: "padStart 4 chr_zero (string_of_int (2024 + 2)) @ js ''-01-01'' = js ''2026-01-01''"
    by (simp add: string_defs)
  from yearsLaterNewYearsDate_value [OF c t q, of "\<lparr>date = None\<rparr>"]
  have "yearsLaterNewYearsDate example_host \<lparr>date = None\<rparr> 2 = js ''2026-01-01''"
    unfolding example_year s by blast
  with c t show ?thesis
    unfolding example_year by simp
qed


lemma example_setDate_1: "setDate 540 1 (Some 1709255700000) = Some 1709255700000"
  by (simp add: setDate_def Let_def) (simp add: calendar_defs Let_def)

lemma example_setFullYear: "setFullYear 540 302024 (Some 1709255700000) = None"
  by (simp add: setFullYear_def Let_def) (simp add: calendar_defs Let_def)

text \<open>
  Claim C5 as stated fails for a number of years that leaves the range of time values:
  300000 years after 2024 there is no date, and the string is \<^verbatim>\<open>Invalid Date\<close>.
\<close>

theorem yearsLaterNewYearsDate_out_of_range:
  "yearsLaterNewYearsDate example_host \<lparr>date = None\<rparr> 300000 = js ''Invalid Date''"
proof -
  have h: "utcOffset example_host = 540" "clock example_host = 1709255700000"
    by (simp_all add: example_host_def)
  have y: "YearFromTime (LocalTime 540 1709255700000) = 2024"
    using example_year by (simp add: h)
  have "add_years 300000 (dayjs_now example_host) = \<lparr>dt = None, zoff = 540\<rparr>"
    by (simp add: add_years_def dayjs_now_def h Let_def y example_setDate_1
        example_setFullYear)
  then show ?thesis
    by (simp add: yearsLaterNewYearsDate_def startOf_year_def getFullYear_def
        new_Date_ymd_def format_def)
qed

end
